theory Spec2Isabelle
  imports Main "HOL-Library.Sublist" "HOL-Library.Multiset"
begin

section \<open>JavaScript strings and objects, as far as index.ts uses them\<close>

text \<open>
  Strings are character lists. \<open>startsWith\<close>, \<open>endsWith\<close> and an unanchored
  regular expression for a literal text are \<^const>\<open>prefix\<close>, \<^const>\<open>suffix\<close> and
  \<^const>\<open>sublist\<close> (a contiguous run) of the library theory Sublist.
\<close>

definition NL :: char where
  "NL = CHR 0x0A"

definition SQ :: char where
  "SQ = CHR 0x27"

definition BSL :: char where
  "BSL = CHR 0x5C"

definition DQ :: char where
  "DQ = CHR 0x22"

text \<open>\<open>xs.join(sep)\<close>\<close>

fun join :: "string \<Rightarrow> string list \<Rightarrow> string" where
  "join sep [] = []"
| "join sep [x] = x"
| "join sep (x # y # ys) = x @ sep @ join sep (y # ys)"

text \<open>\<open>s.split(c)\<close> for a one-character separator: never the empty array.\<close>

fun split_on :: "char \<Rightarrow> string \<Rightarrow> string list" where
  "split_on c [] = [[]]"
| "split_on c (x # xs) =
     (if x = c then [] # split_on c xs
      else (case split_on c xs of [] \<Rightarrow> [[x]] | y # ys \<Rightarrow> (x # y) # ys))"

text \<open>\<open>JSON.stringify\<close> of an array of strings.\<close>

definition hex_digit :: "nat \<Rightarrow> char" where
  "hex_digit n = (if n < 10 then char_of (48 + n) else char_of (87 + n))"

definition json_escape :: "char \<Rightarrow> string" where
  "json_escape c =
     (if c = DQ then [BSL, DQ]
      else if c = BSL then [BSL, BSL]
      else if c = CHR 0x08 then [BSL, CHR ''b'']
      else if c = CHR 0x0C then [BSL, CHR ''f'']
      else if c = CHR 0x0A then [BSL, CHR ''n'']
      else if c = CHR 0x0D then [BSL, CHR ''r'']
      else if c = CHR 0x09 then [BSL, CHR ''t'']
      else if (of_char c :: nat) < 32
        then [BSL, CHR ''u'', CHR ''0'', CHR ''0'',
              hex_digit ((of_char c :: nat) div 16), hex_digit ((of_char c :: nat) mod 16)]
      else [c])"

definition json_string :: "string \<Rightarrow> string" where
  "json_string s = [DQ] @ concat (map json_escape s) @ [DQ]"

definition JSON_stringify :: "string list \<Rightarrow> string" where
  "JSON_stringify xs = ''['' @ join '','' (map json_string xs) @ '']''"

text \<open>
  A plain object \<open>{}\<close> used as a dictionary. Its own properties are an association
  list in creation order. Two things of the language show through the dictionary:
  \<^item> reading \<open>obj[k]\<close> for a key that is not an own property finds the members
    inherited from \<open>Object.prototype\<close>, all of them truthy (functions, or the
    prototype object itself for \<open>__proto__\<close>);
  \<^item> \<open>Object.values\<close> lists the own properties whose key is an array index (a
    canonical decimal numeral at most \<open>2^32 - 2\<close>) first, in ascending numeric
    order, and the other string keys after them in creation order.
\<close>

definition object_prototype_members :: "string list" where
  "object_prototype_members =
     [''constructor'', ''__defineGetter__'', ''__defineSetter__'', ''hasOwnProperty'',
      ''__lookupGetter__'', ''__lookupSetter__'', ''isPrototypeOf'', ''propertyIsEnumerable'',
      ''toString'', ''valueOf'', ''__proto__'', ''toLocaleString'']"

datatype 'v property = Undefined | Inherited string | Own 'v

definition is_digit :: "char \<Rightarrow> bool" where
  "is_digit c \<longleftrightarrow> 48 \<le> (of_char c :: nat) \<and> (of_char c :: nat) \<le> 57"

definition decimal_value :: "string \<Rightarrow> int" where
  "decimal_value s = foldl (\<lambda>n c. 10 * n + ((of_char c :: int) - 48)) 0 s"

definition is_array_index :: "string \<Rightarrow> bool" where
  "is_array_index s \<longleftrightarrow>
     s \<noteq> [] \<and> list_all is_digit s \<and> (s = ''0'' \<or> hd s \<noteq> CHR ''0'')
     \<and> length s \<le> 10 \<and> decimal_value s \<le> 4294967294"

type_synonym 'v object = "(string \<times> 'v) list"

definition object_get :: "'v object \<Rightarrow> string \<Rightarrow> 'v property" where
  "object_get obj k =
     (case map_of obj k of
        Some v \<Rightarrow> Own v
      | None \<Rightarrow> if k \<in> set object_prototype_members then Inherited k else Undefined)"

definition object_values :: "'v object \<Rightarrow> 'v list" where
  "object_values obj =
     map snd (sort_key (\<lambda>kv. decimal_value (fst kv)) (filter (\<lambda>kv. is_array_index (fst kv)) obj)
              @ filter (\<lambda>kv. \<not> is_array_index (fst kv)) obj)"

section \<open>Data model of index.ts\<close>

text \<open>The result \<open>{name, version, path}\<close> of \<open>parse\<close>, which \<open>Package\<close> extends.\<close>

record parsed =
  name :: string
  version :: string
  path :: string

text \<open>The sentinel \<open>NOT_IMPORTABLE\<close> or a module object.\<close>

datatype 'm importable = NOT_IMPORTABLE | Module 'm

record 'm Package = parsed +
  packageWithPath :: string
  imported :: "'m importable"
  local :: bool

text \<open>\<open>INSTALL_CACHE\<close>: the sentinel \<open>INSTALLED_LOCALLY\<close> or an install directory.\<close>

datatype cached = INSTALLED_LOCALLY | InstalledAt string

type_synonym install_cache = "string \<rightharpoonup> cached"

definition cache_get :: "install_cache \<Rightarrow> string \<Rightarrow> cached property" where
  "cache_get C k =
     (case C k of
        Some v \<Rightarrow> Own v
      | None \<Rightarrow> if k \<in> set object_prototype_members then Inherited k else Undefined)"

text \<open>
  Every \<open>throw new Error(...)\<close> of index.ts, tagged with the name the specification
  gives it and carrying what its message interpolates; \<open>External\<close> is an error thrown
  by a collaborator (the parser, the process runner, the module loader), with its message.
\<close>

datatype error =
    InvalidSpecifier string
  | CoreModuleNotImportable string string
  | InvalidPackageName string string
  | DuplicatePackageRequest string string
  | ToolUnavailable string
  | ToolVersionTooOld string string
  | InstallFailed "string list" string
  | TempDirNotFound "string list"
  | UnexpectedInstallLayout string
  | OrchestrationFailed "string list" string "string list" string
  | ResolveBeforeImport string
  | External string

fun message :: "error \<Rightarrow> string" where
  "message (InvalidSpecifier p) =
     ''npx-import can only import packages, not relative paths: got '' @ p"
| "message (CoreModuleNotImportable n p) =
     ''npx-import can only import NPM packages, got core module '' @ [SQ] @ n @ [SQ]
       @ '' from '' @ [SQ] @ p @ [SQ]"
| "message (InvalidPackageName n p) =
     ''npx-import can'' @ [SQ] @ ''t import invalid package name: parsed name '' @ [SQ] @ n @ [SQ]
       @ '' from '' @ [SQ] @ p @ [SQ]"
| "message (DuplicatePackageRequest p n) =
     ''npx-import cannot import the same package twice! Got: '' @ [SQ] @ p @ [SQ]
       @ '' but already saw '' @ [SQ] @ n @ [SQ] @ '' earlier!''"
| "message (ToolUnavailable cmd) =
     ''Couldn'' @ [SQ] @ ''t execute '' @ cmd @ ''. Is npm installed and up-to-date?''"
| "message (ToolVersionTooOld v cmd) =
     ''Require npm version 8+. Got '' @ [SQ] @ v @ [SQ] @ '' when running '' @ [SQ] @ cmd @ [SQ]"
| "message (InstallFailed ns cmd) =
     ''Failed installing '' @ join '','' ns @ '' using: '' @ cmd @ ''.''"
| "message (TempDirNotFound paths) =
     ''Failed to find temporary install directory. Looking for paths matching ''
       @ [SQ] @ ''/.npm/_npx/'' @ [SQ] @ '' in:'' @ [NL] @ JSON_stringify paths"
| "message (UnexpectedInstallLayout t) =
     ''Found NPX temporary path of '' @ [SQ] @ t @ [SQ]
       @ '' but expected to be able to find a node_modules directory by looking in ''
       @ [SQ] @ ''..'' @ [SQ] @ ''.''"
| "message (OrchestrationFailed pwps m ns instr) =
     ''npx-import failed for '' @ join '','' pwps @ '' with message:'' @ [NL] @ ''    '' @ m
       @ [NL, NL] @ ''You should install '' @ join '', '' ns @ '' locally: '' @ [NL] @ ''    ''
       @ instr @ [NL, NL]"
| "message (ResolveBeforeImport p) =
     ''You must call npxImport for a package before calling npxResolve. Got: '' @ p"
| "message (External m) = m"

text \<open>What a call does to the outside, in the order it does it.\<close>

datatype event =
    Logged string
  | Probed string
  | Executed string bool
  | ImportedRelative string string

section \<open>The collaborators\<close>

text \<open>
  index.ts calls a parser, a name validator, a version comparison, a path resolver, a
  process runner and the four loaders and resolvers of utils.js, and reads three values
  of the environment. None of them is part of index.ts; they are the fields of
  \<open>env\<close>. A collaborator that can throw returns \<open>Inl\<close> of its error's message.
  The fields \<open>u_import\<close>, \<open>u_importRelative\<close>, \<open>u_resolve\<close> and \<open>u_resolveRelative\<close>
  are \<open>_import\<close>, \<open>_importRelative\<close>, \<open>_resolve\<close> and \<open>_resolveRelative\<close> of utils.js;
  \<open>execaCommand\<close> takes the command and whether the \<open>shell\<close> option is set.
\<close>

record validation =
  validForNewPackages :: bool
  warnings :: "string list option"

record exec_result =
  failed :: bool
  stdout :: string

text \<open>The directory handed to \<open>_resolveRelative\<close>: a string, or an inherited member.\<close>

datatype install_dir = Dir string | PrototypeMember string

datatype package_manager = npm | pnpm | yarn

record 'm env =
  parse :: "string \<Rightarrow> string + parsed"
  validateNpmName :: "string \<Rightarrow> validation"
  semver_gte :: "string \<Rightarrow> string \<Rightarrow> string + bool"
  path_resolve :: "string \<Rightarrow> string \<Rightarrow> string"
  execaCommand :: "string \<Rightarrow> bool \<Rightarrow> string + exec_result"
  u_import :: "string \<Rightarrow> string + 'm"
  u_importRelative :: "string \<Rightarrow> string \<Rightarrow> string + 'm"
  u_resolve :: "string \<Rightarrow> string + string"
  u_resolveRelative :: "install_dir \<Rightarrow> string \<Rightarrow> string + string"
  npm_config_user_agent :: "string option"
  npm_execpath :: "string option"
  mainModulePath :: "string option"

section \<open>index.ts\<close>

subsection \<open>parseAndValidate, tryImport, checkPackagesAvailableLocally\<close>

definition parseAndValidate :: "'m env \<Rightarrow> string \<Rightarrow> error + parsed" where
  "parseAndValidate E p =
     (if p \<noteq> [] \<and> (hd p = CHR ''.'' \<or> hd p = CHR ''/'') then Inl (InvalidSpecifier p)
      else case parse E p of
        Inl m \<Rightarrow> Inl (External m)
      | Inr r \<Rightarrow>
          let validation = validateNpmName E (name r) in
          if \<not> validForNewPackages validation then
            (if (case warnings validation of
                   None \<Rightarrow> False
                 | Some ws \<Rightarrow> list_ex (sublist ''is a core module name'') ws)
             then Inl (CoreModuleNotImportable (name r) p)
             else Inl (InvalidPackageName (name r) p))
          else Inr \<lparr>name = name r, version = version r, path = path r\<rparr>)"

definition tryImport :: "'m env \<Rightarrow> string \<Rightarrow> 'm importable" where
  "tryImport E pwp =
     (case u_import E pwp of Inl e \<Rightarrow> NOT_IMPORTABLE | Inr m \<Rightarrow> Module m)"

datatype specifiers = Single string | Array "string list"

definition as_array :: "specifiers \<Rightarrow> string list" where
  "as_array pkg = (case pkg of Single p \<Rightarrow> [p] | Array ps \<Rightarrow> ps)"

text \<open>
  The loop of \<open>checkPackagesAvailableLocally\<close>. \<open>packages[name]\<close> is truthy for an own
  property (a \<open>Package\<close> object) and for an inherited member. The assignment
  \<open>packages[name] = {...}\<close> is reached only where \<open>packages[name]\<close> was falsy, so it
  creates a new own property, the last in creation order.
\<close>

fun checkPackagesAvailableLocally_loop ::
  "'m env \<Rightarrow> string list \<Rightarrow> 'm Package object \<Rightarrow> (error + 'm Package object) \<times> event list" where
  "checkPackagesAvailableLocally_loop E [] packages = (Inr packages, [])"
| "checkPackagesAvailableLocally_loop E (p # ps) packages =
     (case parseAndValidate E p of
        Inl e \<Rightarrow> (Inl e, [])
      | Inr r \<Rightarrow>
          if object_get packages (name r) \<noteq> Undefined
          then (Inl (DuplicatePackageRequest p (name r)), [])
          else
            let pwp = name r @ path r;
                imp = tryImport E pwp;
                pkg = \<lparr>name = name r, version = version r, path = path r,
                       packageWithPath = pwp, imported = imp,
                       local = (imp \<noteq> NOT_IMPORTABLE)\<rparr>;
                (res, tr) = checkPackagesAvailableLocally_loop E ps (packages @ [(name r, pkg)])
            in (res, Probed pwp # tr))"

definition checkPackagesAvailableLocally ::
  "'m env \<Rightarrow> specifiers \<Rightarrow> (error + 'm Package object) \<times> event list" where
  "checkPackagesAvailableLocally E pkg = checkPackagesAvailableLocally_loop E (as_array pkg) []"

subsection \<open>checkNpxVersion\<close>

definition checkNpxVersion :: "'m env \<Rightarrow> (error + unit) \<times> event list" where
  "checkNpxVersion E =
     (let versionCmd = ''npx --version'' in
      case execaCommand E versionCmd False of
        Inl m \<Rightarrow> (Inl (External m), [Executed versionCmd False])
      | Inr r \<Rightarrow>
          if failed r then (Inl (ToolUnavailable versionCmd), [Executed versionCmd False])
          else (case semver_gte E (stdout r) ''8.0.0'' of
                  Inl m \<Rightarrow> (Inl (External m), [Executed versionCmd False])
                | Inr ok \<Rightarrow>
                    if \<not> ok
                    then (Inl (ToolVersionTooOld (stdout r) versionCmd), [Executed versionCmd False])
                    else (Inr (), [Executed versionCmd False])))"

subsection \<open>formatForCLI, getPackageManager, installInstructions\<close>

definition formatForCLI :: "'m Package \<Rightarrow> string" where
  "formatForCLI p =
     (let unescaped = name p @ ''@'' @ version p in
      if list_ex (\<lambda>c. c = CHR ''<'' \<or> c = CHR ''>'' \<or> c = CHR ''*'') unescaped
      then [SQ] @ unescaped @ [SQ] else unescaped)"

fun INSTRUCTIONS :: "package_manager \<Rightarrow> string \<Rightarrow> string" where
  "INSTRUCTIONS npm packageName = ''npm install --save-dev '' @ packageName"
| "INSTRUCTIONS pnpm packageName = ''pnpm add -D '' @ packageName"
| "INSTRUCTIONS yarn packageName = ''yarn add -D '' @ packageName"

text \<open>An absent or empty variable is falsy; each test that finds nothing falls through.\<close>

definition from_userAgent :: "string option \<Rightarrow> package_manager option" where
  "from_userAgent v =
     (case v of
        None \<Rightarrow> None
      | Some userAgent \<Rightarrow>
          if userAgent = [] then None
          else if prefix ''pnpm'' userAgent then Some pnpm
          else if prefix ''yarn'' userAgent then Some yarn
          else if prefix ''npm'' userAgent then Some npm
          else None)"

definition from_execpath :: "string option \<Rightarrow> package_manager option" where
  "from_execpath v =
     (case v of
        None \<Rightarrow> None
      | Some execpath \<Rightarrow>
          if execpath = [] then None
          else if suffix ''npx-cli.js'' execpath \<or> suffix ''npm-cli.js'' execpath then Some npm
          else if suffix ''yarn'' execpath then Some yarn
          else None)"

definition from_mainModulePath :: "string option \<Rightarrow> package_manager option" where
  "from_mainModulePath v =
     (case v of
        None \<Rightarrow> None
      | Some mmp \<Rightarrow>
          if mmp = [] then None
          else if sublist ''/pnpm/'' mmp \<or> sublist ''/.pnpm/'' mmp then Some pnpm
          else if sublist ''/yarn/'' mmp \<or> sublist ''/.yarn/'' mmp then Some yarn
          else None)"

definition getPackageManager :: "'m env \<Rightarrow> package_manager" where
  "getPackageManager E =
     (case from_userAgent (npm_config_user_agent E) of
        Some pm \<Rightarrow> pm
      | None \<Rightarrow>
          (case from_execpath (npm_execpath E) of
             Some pm \<Rightarrow> pm
           | None \<Rightarrow>
               (case from_mainModulePath (mainModulePath E) of
                  Some pm \<Rightarrow> pm
                | None \<Rightarrow> npm)))"

definition installInstructions :: "'m env \<Rightarrow> 'm Package list \<Rightarrow> string" where
  "installInstructions E packages =
     INSTRUCTIONS (getPackageManager E) (join '' '' (map formatForCLI packages))"

subsection \<open>installAndReturnDir\<close>

definition installPackage_of :: "'m Package list \<Rightarrow> string" where
  "installPackage_of packages =
     ''npx -y '' @ join '' '' (map (\<lambda>p. ''-p '' @ formatForCLI p) packages)"

definition emitPath :: string where
  "emitPath = ''node -e '' @ [SQ] @ ''console.log(process.env.PATH)'' @ [SQ]"

definition fullCmd_of :: "'m Package list \<Rightarrow> string" where
  "fullCmd_of packages = installPackage_of packages @ '' '' @ emitPath"

definition installAndReturnDir :: "'m env \<Rightarrow> 'm Package list \<Rightarrow> (error + string) \<times> event list" where
  "installAndReturnDir E packages =
     (let installPackage = installPackage_of packages;
          fullCmd = fullCmd_of packages;
          tr = [Logged (''Installing... ('' @ installPackage @ '')''), Executed fullCmd True]
      in case execaCommand E fullCmd True of
           Inl m \<Rightarrow> (Inl (External m), tr)
         | Inr r \<Rightarrow>
             if failed r then (Inl (InstallFailed (map name packages) installPackage), tr)
             else
               let paths = split_on (CHR '':'') (stdout r) in
               (case find (sublist ''/.npm/_npx/'') paths of
                  None \<Rightarrow> (Inl (TempDirNotFound paths), tr)
                | Some tempPath \<Rightarrow>
                    let nodeModulesPath = path_resolve E tempPath ''..'' in
                    if \<not> suffix ''node_modules'' nodeModulesPath
                    then (Inl (UnexpectedInstallLayout tempPath), tr)
                    else (Inr nodeModulesPath,
                          tr @ [Logged (''Installed into '' @ nodeModulesPath @ ''.''),
                                Logged (''To skip this step in future, run: ''
                                        @ installInstructions E packages)])))"

subsection \<open>npxImport\<close>

text \<open>
  \<open>packages[pkg.name].imported = ...\<close> writes into the \<open>Package\<close> object stored under
  that name, the same object that \<open>allPackages\<close> holds: the model updates the entry of
  that name in \<open>allPackages\<close>.
\<close>

definition set_imported :: "string \<Rightarrow> 'm \<Rightarrow> 'm Package list \<Rightarrow> 'm Package list" where
  "set_imported n m ps = map (\<lambda>p. if name p = n then p\<lparr>imported := Module m\<rparr> else p) ps"

text \<open>The first loop of the \<open>try\<close> block: import, then write the cache, one package at a time.\<close>

fun import_missing ::
  "'m env \<Rightarrow> string \<Rightarrow> 'm Package list \<Rightarrow> 'm Package list \<Rightarrow> install_cache
     \<Rightarrow> (error + 'm Package list) \<times> install_cache \<times> event list" where
  "import_missing E installDir [] allPackages C = (Inr allPackages, C, [])"
| "import_missing E installDir (pkg # rest) allPackages C =
     (case u_importRelative E installDir (packageWithPath pkg) of
        Inl m \<Rightarrow> (Inl (External m), C, [ImportedRelative installDir (packageWithPath pkg)])
      | Inr m \<Rightarrow>
          let (res, C', tr) =
                import_missing E installDir rest (set_imported (name pkg) m allPackages)
                  (C(name pkg \<mapsto> InstalledAt installDir))
          in (res, C', ImportedRelative installDir (packageWithPath pkg) # tr))"

text \<open>The second loop of the \<open>try\<close> block.\<close>

definition cache_local :: "'m Package list \<Rightarrow> install_cache \<Rightarrow> install_cache" where
  "cache_local localPackages C = foldl (\<lambda>C p. C(name p \<mapsto> INSTALLED_LOCALLY)) C localPackages"

text \<open>The \<open>try\<close> block; the \<open>catch\<close> is in \<open>npxImport\<close>.\<close>

definition npxImport_try ::
  "'m env \<Rightarrow> install_cache \<Rightarrow> 'm Package list \<Rightarrow> 'm Package list \<Rightarrow> 'm Package list
     \<Rightarrow> (error + 'm Package list) \<times> install_cache \<times> event list" where
  "npxImport_try E C allPackages missingPackages localPackages =
     (case checkNpxVersion E of
        (Inl e, tr1) \<Rightarrow> (Inl e, C, tr1)
      | (Inr u, tr1) \<Rightarrow>
          (case installAndReturnDir E missingPackages of
             (Inl e, tr2) \<Rightarrow> (Inl e, C, tr1 @ tr2)
           | (Inr installDir, tr2) \<Rightarrow>
               (case import_missing E installDir missingPackages allPackages C of
                  (Inl e, C', tr3) \<Rightarrow> (Inl e, C', tr1 @ tr2 @ tr3)
                | (Inr allPackages', C', tr3) \<Rightarrow>
                    (Inr allPackages', cache_local localPackages C', tr1 @ tr2 @ tr3))))"

text \<open>What \<open>npxImport\<close> resolves to: \<open>results\<close>, or \<open>results[0]\<close>.\<close>

datatype 'm returned = One "'m importable" | Many "'m importable list" | Nothing

definition returned :: "specifiers \<Rightarrow> 'm importable list \<Rightarrow> 'm returned" where
  "returned pkg results =
     (case pkg of
        Array ps \<Rightarrow> Many results
      | Single p \<Rightarrow> (case results of [] \<Rightarrow> Nothing | r # rs \<Rightarrow> One r))"

definition missing_line :: "'m Package list \<Rightarrow> string" where
  "missing_line missingPackages =
     (if length missingPackages > 1
      then ''Packages '' @ join '', '' (map packageWithPath missingPackages)
      else packageWithPath (hd missingPackages))
     @ '' not available locally. Attempting to use npx to install temporarily.''"

definition npxImport ::
  "'m env \<Rightarrow> install_cache \<Rightarrow> specifiers \<Rightarrow> (error + 'm returned) \<times> install_cache \<times> event list" where
  "npxImport E C pkg =
     (case checkPackagesAvailableLocally E pkg of
        (Inl e, tr) \<Rightarrow> (Inl e, C, tr)
      | (Inr packages, tr) \<Rightarrow>
          let allPackages = object_values packages;
              localPackages = filter (\<lambda>p. imported p \<noteq> NOT_IMPORTABLE) allPackages;
              missingPackages = filter (\<lambda>p. imported p = NOT_IMPORTABLE) allPackages
          in
            if length missingPackages > 0 then
              (case npxImport_try E C allPackages missingPackages localPackages of
                 (Inl e, C', tr') \<Rightarrow>
                   (Inl (OrchestrationFailed (map packageWithPath missingPackages) (message e)
                           (map name missingPackages) (installInstructions E missingPackages)),
                    C', tr @ [Logged (missing_line missingPackages)] @ tr')
               | (Inr allPackages', C', tr') \<Rightarrow>
                   (Inr (returned pkg (map imported allPackages')),
                    C', tr @ [Logged (missing_line missingPackages)] @ tr'))
            else (Inr (returned pkg (map imported allPackages)), C, tr))"

subsection \<open>npxResolve\<close>

text \<open>
  \<open>!cachedDir\<close> holds for \<open>undefined\<close> and for the empty string; an inherited member
  is an object or a function, truthy and different from \<open>INSTALLED_LOCALLY\<close>.
\<close>

definition thrown :: "string + 'a \<Rightarrow> error + 'a" where
  "thrown r = (case r of Inl m \<Rightarrow> Inl (External m) | Inr x \<Rightarrow> Inr x)"

definition npxResolve :: "'m env \<Rightarrow> install_cache \<Rightarrow> string \<Rightarrow> error + string" where
  "npxResolve E C pkg =
     (case parse E pkg of
        Inl m \<Rightarrow> Inl (External m)
      | Inr r \<Rightarrow>
          let pwp = name r @ path r in
          (case cache_get C (name r) of
             Undefined \<Rightarrow> Inl (ResolveBeforeImport pkg)
           | Inherited k \<Rightarrow> thrown (u_resolveRelative E (PrototypeMember k) pwp)
           | Own INSTALLED_LOCALLY \<Rightarrow> thrown (u_resolve E pwp)
           | Own (InstalledAt cachedDir) \<Rightarrow>
               if cachedDir = [] then Inl (ResolveBeforeImport pkg)
               else thrown (u_resolveRelative E (Dir cachedDir) pwp)))"

section \<open>Example collaborators\<close>

text \<open>
  A concrete environment in the manner of the repository's tests, which replace the loader
  and the process runner by scripted ones. The parser follows the two regular expressions
  of parse-package-name,
  \<^verbatim>\<open>/^(@[^\/]+\/[^@\/]+)(?:@([^\/]+))?(\/.*)?$/\<close> and
  \<^verbatim>\<open>/^([^@\/]+)(?:@([^\/]+))?(\/.*)?$/\<close>, with \<open>latest\<close> for a missing version.
\<close>

definition not_sep :: "char \<Rightarrow> bool" where
  "not_sep c \<longleftrightarrow> c \<noteq> CHR ''@'' \<and> c \<noteq> CHR ''/''"

definition not_slash :: "char \<Rightarrow> bool" where
  "not_slash c \<longleftrightarrow> c \<noteq> CHR ''/''"

definition example_parse_rest :: "string \<Rightarrow> string \<Rightarrow> string \<Rightarrow> string + parsed" where
  "example_parse_rest input n rest =
     (let bad = Inl (''[parse-package-name] invalid package name: '' @ input);
          ok = (\<lambda>v p. if list_ex (\<lambda>c. c = CHR 0x0A \<or> c = CHR 0x0D) p then bad
                      else Inr \<lparr>name = n, version = v, path = p\<rparr>)
      in if n = [] then bad
         else if rest = [] then ok ''latest'' []
         else if hd rest = CHR ''@'' then
           (let v = takeWhile not_slash (tl rest) in
            if v = [] then bad else ok v (dropWhile not_slash (tl rest)))
         else ok ''latest'' rest)"

definition example_parse :: "string \<Rightarrow> string + parsed" where
  "example_parse input =
     (if input \<noteq> [] \<and> hd input = CHR ''@'' then
        (let scope = takeWhile not_slash (tl input);
             after = dropWhile not_slash (tl input)
         in if scope = [] \<or> after = [] \<or> takeWhile not_sep (tl after) = [] then
              Inl (''[parse-package-name] invalid package name: '' @ input)
            else
              example_parse_rest input
                (''@'' @ scope @ ''/'' @ takeWhile not_sep (tl after))
                (dropWhile not_sep (tl after)))
      else example_parse_rest input (takeWhile not_sep input) (dropWhile not_sep input))"

text \<open>A validator that accepts lower-case URL-safe names and knows a few core modules.\<close>

definition name_char :: "char \<Rightarrow> bool" where
  "name_char c \<longleftrightarrow>
     (97 \<le> (of_char c :: nat) \<and> (of_char c :: nat) \<le> 122) \<or> is_digit c
     \<or> c = CHR ''-'' \<or> c = CHR ''_'' \<or> c = CHR ''.'' \<or> c = CHR ''@'' \<or> c = CHR ''/''"

definition example_validate :: "string \<Rightarrow> validation" where
  "example_validate n =
     (if n \<in> set [''fs'', ''path'', ''http'', ''os'', ''util'', ''events'']
      then \<lparr>validForNewPackages = False, warnings = Some [n @ '' is a core module name'']\<rparr>
      else if n = [] \<or> hd n = CHR ''.'' \<or> hd n = CHR ''_'' \<or> \<not> list_all name_char n
      then \<lparr>validForNewPackages = False, warnings = None\<rparr>
      else \<lparr>validForNewPackages = True, warnings = None\<rparr>)"

text \<open>\<open>path.resolve\<close> on POSIX, with \<open>/project\<close> as the working directory.\<close>

definition example_path_resolve :: "string \<Rightarrow> string \<Rightarrow> string" where
  "example_path_resolve p q =
     (let full = (if prefix ''/'' q then q
                  else if prefix ''/'' p then p @ ''/'' @ q
                  else ''/project/'' @ p @ ''/'' @ q);
          segs = foldl (\<lambda>acc s. if s = [] \<or> s = ''.'' then acc
                                 else if s = ''..'' then butlast acc
                                 else acc @ [s]) [] (split_on (CHR ''/'') full)
      in ''/'' @ join ''/'' segs)"

text \<open>
  \<open>example_env locals out\<close>: the packages in \<open>locals\<close> load locally, npx reports version
  8.1.2, the install command prints \<open>out\<close>, every import from a directory succeeds, and
  the user agent is pnpm's.
\<close>

definition example_env :: "string list \<Rightarrow> string \<Rightarrow> string env" where
  "example_env locals out =
     \<lparr>parse = example_parse,
      validateNpmName = example_validate,
      semver_gte = (\<lambda>a b. Inr (decimal_value (takeWhile is_digit b)
                                \<le> decimal_value (takeWhile is_digit a))),
      path_resolve = example_path_resolve,
      execaCommand = (\<lambda>cmd shell.
         if cmd = ''npx --version'' then Inr \<lparr>failed = False, stdout = ''8.1.2''\<rparr>
         else Inr \<lparr>failed = False, stdout = out\<rparr>),
      u_import = (\<lambda>pwp. if pwp \<in> set locals then Inr (''local:'' @ pwp)
                         else Inl (''Cannot find package '' @ pwp)),
      u_importRelative = (\<lambda>dir pwp. Inr (dir @ ''/'' @ pwp)),
      u_resolve = (\<lambda>pwp. Inr (''/project/node_modules/'' @ pwp)),
      u_resolveRelative = (\<lambda>dir pwp.
         case dir of
           Dir d \<Rightarrow> Inr (d @ ''/'' @ pwp)
         | PrototypeMember k \<Rightarrow> Inl ''The argument must be a file URL object, a file URL string, or an absolute path string.''),
      npm_config_user_agent = Some ''pnpm/7.9.0 npm/? node/v18.0.0 linux x64'',
      npm_execpath = None,
      mainModulePath = None\<rparr>"

text \<open>The same, with an install command that the process runner rejects with \<open>msg\<close>.\<close>

definition failing_install_env :: "string list \<Rightarrow> string \<Rightarrow> string env" where
  "failing_install_env locals msg =
     (example_env locals [])\<lparr>execaCommand := (\<lambda>cmd shell.
         if cmd = ''npx --version'' then Inr \<lparr>failed = False, stdout = ''8.1.2''\<rparr>
         else Inl msg)\<rparr>"

text \<open>The same as \<open>example_env\<close>, with an import from the directory that fails for \<open>bad\<close>.\<close>

definition failing_import_env :: "string list \<Rightarrow> string \<Rightarrow> string \<Rightarrow> string env" where
  "failing_import_env locals out bad =
     (example_env locals out)\<lparr>u_importRelative := (\<lambda>dir pwp.
         if pwp = bad then Inl (''Cannot find module '' @ dir @ ''/'' @ pwp)
         else Inr (dir @ ''/'' @ pwp))\<rparr>"

definition npx_out :: string where
  "npx_out = ''/home/u/.npm/_npx/0123abcd/node_modules/.bin:/project/node_modules/.bin:/usr/local/bin:/usr/bin''"

definition odd_out :: string where
  "odd_out = ''/home/u/.npm/_npx/0123abcd/xnode_modules/.bin:/usr/bin''"

definition example_missing :: "string Package" where
  "example_missing =
     \<lparr>name = ''pkg-b'', version = ''latest'', path = [], packageWithPath = ''pkg-b'',
      imported = NOT_IMPORTABLE, local = False\<rparr>"

section \<open>Notions used in the statements\<close>

text \<open>What the parser returns for a specifier it accepts.\<close>

definition parsed_of :: "'m env \<Rightarrow> string \<Rightarrow> parsed" where
  "parsed_of E p =
     (case parse E p of Inl m \<Rightarrow> \<lparr>name = [], version = [], path = []\<rparr> | Inr r \<Rightarrow> r)"

text \<open>The string a specifier is probed with: the parsed name followed by the subpath.\<close>

definition probe_target :: "'m env \<Rightarrow> string \<Rightarrow> string" where
  "probe_target E p = (case parse E p of Inl m \<Rightarrow> [] | Inr r \<Rightarrow> name r @ path r)"

text \<open>The \<open>Package\<close> object the probing loop stores for a parsed specifier.\<close>

definition package_of :: "'m env \<Rightarrow> parsed \<Rightarrow> 'm Package" where
  "package_of E r =
     \<lparr>name = name r, version = version r, path = path r,
      packageWithPath = name r @ path r, imported = tryImport E (name r @ path r),
      local = (tryImport E (name r @ path r) \<noteq> NOT_IMPORTABLE)\<rparr>"

text \<open>The four validation errors of the specification.\<close>

fun validation_error :: "error \<Rightarrow> bool" where
  "validation_error (InvalidSpecifier p) = True"
| "validation_error (CoreModuleNotImportable n p) = True"
| "validation_error (InvalidPackageName n p) = True"
| "validation_error (DuplicatePackageRequest p n) = True"
| "validation_error e = False"

text \<open>The process invocations, the probes and the imports from a directory of a trace.\<close>

fun commands :: "event list \<Rightarrow> (string \<times> bool) list" where
  "commands [] = []"
| "commands (Executed c sh # tr) = (c, sh) # commands tr"
| "commands (e # tr) = commands tr"

fun probes :: "event list \<Rightarrow> string list" where
  "probes [] = []"
| "probes (Probed s # tr) = s # probes tr"
| "probes (e # tr) = probes tr"

fun relative_imports :: "event list \<Rightarrow> (string \<times> string) list" where
  "relative_imports [] = []"
| "relative_imports (ImportedRelative d s # tr) = (d, s) # relative_imports tr"
| "relative_imports (e # tr) = relative_imports tr"

text \<open>The three parts of what \<open>npxImport\<close> does: outcome, cache afterwards, trace.\<close>

definition result_of :: "'a \<times> 'b \<times> 'c \<Rightarrow> 'a" where
  "result_of x = fst x"

definition cache_of :: "'a \<times> 'b \<times> 'c \<Rightarrow> 'b" where
  "cache_of x = fst (snd x)"

definition trace_of :: "'a \<times> 'b \<times> 'c \<Rightarrow> 'c" where
  "trace_of x = snd (snd x)"

text \<open>A result that holds a module for every requested specifier, in the caller's shape.\<close>

definition every_module :: "specifiers \<Rightarrow> 'm returned \<Rightarrow> bool" where
  "every_module pkg res =
     (case res of
        One m \<Rightarrow> m \<noteq> NOT_IMPORTABLE \<and> (case pkg of Single p \<Rightarrow> True | Array ps \<Rightarrow> False)
      | Many ms \<Rightarrow> NOT_IMPORTABLE \<notin> set ms \<and> length ms = length (as_array pkg)
                   \<and> (case pkg of Single p \<Rightarrow> False | Array ps \<Rightarrow> True)
      | Nothing \<Rightarrow> False)"

text \<open>The cache once the packages \<open>ps\<close> have been recorded as installed in \<open>d\<close>.\<close>

fun cache_after :: "string \<Rightarrow> 'm Package list \<Rightarrow> install_cache \<Rightarrow> install_cache" where
  "cache_after d [] C = C"
| "cache_after d (p # ps) C = cache_after d ps (C(name p \<mapsto> InstalledAt d))"

text \<open>The last component of a path.\<close>

definition last_component :: "string \<Rightarrow> string" where
  "last_component d = last (split_on (CHR ''/'') d)"

text \<open>An environment whose parser reports the version \<open>f p\<close> for the specifier \<open>p\<close>.\<close>

definition with_versions :: "(string \<Rightarrow> string) \<Rightarrow> 'm env \<Rightarrow> 'm env" where
  "with_versions f E =
     E\<lparr>parse := (\<lambda>p. case parse E p of Inl m \<Rightarrow> Inl m | Inr r \<Rightarrow> Inr (r\<lparr>version := f p\<rparr>))\<rparr>"

definition forget_version :: "'m Package object \<Rightarrow> 'm Package object" where
  "forget_version packages = map (\<lambda>kp. (fst kp, (snd kp)\<lparr>version := []\<rparr>)) packages"

definition forget_versions :: "error + 'm Package object \<Rightarrow> error + 'm Package object" where
  "forget_versions r = (case r of Inl e \<Rightarrow> Inl e | Inr packages \<Rightarrow> Inr (forget_version packages))"

section \<open>The empty request\<close>

text \<open>
  C10. \<open>npxImport([])\<close> resolves to the empty array whatever the collaborators do: the
  trace is empty, so nothing is probed, no command is run and nothing is logged, and the
  cache is the one the call started with.
\<close>

theorem npxImport_empty_array:
  "npxImport E C (Array []) = (Inr (Many []), C, [])"
  by (simp add: npxImport_def checkPackagesAvailableLocally_def as_array_def
      object_values_def returned_def)

lemma commands_append: "commands (xs @ ys) = commands xs @ commands ys"
proof (induction xs)
  case Nil
  then show ?case by simp
next
  case (Cons e xs)
  then show ?case by (cases e) simp_all
qed

lemma probes_append: "probes (xs @ ys) = probes xs @ probes ys"
proof (induction xs)
  case Nil
  then show ?case by simp
next
  case (Cons e xs)
  then show ?case by (cases e) simp_all
qed

lemma relative_imports_append:
  "relative_imports (xs @ ys) = relative_imports xs @ relative_imports ys"
proof (induction xs)
  case Nil
  then show ?case by simp
next
  case (Cons e xs)
  then show ?case by (cases e) simp_all
qed

lemma join_sublist: "x \<in> set xs \<Longrightarrow> sublist x (join sep xs)"
proof (induction sep xs rule: join.induct)
  case (1 sep)
  then show ?case by simp
next
  case (2 sep y)
  then show ?case by simp
next
  case (3 sep a b ys)
  show ?case
  proof (cases "x = a")
    case True
    then show ?thesis by simp
  next
    case False
    with 3 have "sublist x (join sep (b # ys))" by simp
    then show ?thesis
      by (simp add: sublist_append)
  qed
qed

lemma object_get_defined:
  "object_get obj k \<noteq> Undefined \<longleftrightarrow> k \<in> fst ` set obj \<or> k \<in> set object_prototype_members"
  using map_of_eq_None_iff [of obj k]
  by (cases "map_of obj k") (auto simp: object_get_def)

lemma mset_object_values: "mset (object_values obj) = mset (map snd obj)"
proof -
  let ?P = "\<lambda>kv. is_array_index (fst kv)"
  let ?A = "filter_mset ?P (mset obj)"
  let ?B = "filter_mset (\<lambda>kv. \<not> ?P kv) (mset obj)"
  have "mset (object_values obj) = image_mset snd ?A + image_mset snd ?B"
    by (simp add: object_values_def)
  also have "\<dots> = image_mset snd (?A + ?B)"
    by (simp only: image_mset_union)
  also have "?A + ?B = mset obj"
    by simp
  finally show ?thesis by simp
qed

lemma set_object_values: "set (object_values obj) = snd ` set obj"
  using mset_object_values [of obj] by (metis mset_eq_setD set_map)

lemma length_object_values: "length (object_values obj) = length obj"
  using mset_object_values [of obj] by (metis length_map mset_eq_length)

lemma object_values_no_index:
  "\<forall>kv \<in> set obj. \<not> is_array_index (fst kv) \<Longrightarrow> object_values obj = map snd obj"
  by (simp add: object_values_def filter_empty_conv[THEN iffD2] cong: filter_cong)

lemma probe_target_parsed_of:
  "probe_target E p = name (parsed_of E p) @ path (parsed_of E p)"
  by (simp add: probe_target_def parsed_of_def split: sum.splits)

lemma parseAndValidate_Inr:
  "parseAndValidate E p = Inr r \<Longrightarrow> parse E p = Inr r \<and> r = parsed_of E p"
  by (auto simp: parseAndValidate_def parsed_of_def Let_def split: if_splits sum.splits)

lemma loop_Inr:
  "checkPackagesAvailableLocally_loop E ps pk0 = (Inr pk, tr) \<Longrightarrow>
     pk = pk0 @ map (\<lambda>p. (name (parsed_of E p), package_of E (parsed_of E p))) ps \<and>
     tr = map (\<lambda>p. Probed (probe_target E p)) ps \<and>
     (\<forall>p \<in> set ps. parseAndValidate E p = Inr (parsed_of E p)) \<and>
     distinct (map (\<lambda>p. name (parsed_of E p)) ps) \<and>
     (\<forall>p \<in> set ps. name (parsed_of E p) \<notin> fst ` set pk0
                    \<and> name (parsed_of E p) \<notin> set object_prototype_members)"
proof (induction ps arbitrary: pk0 pk tr)
  case Nil
  then show ?case by simp
next
  case (Cons p ps)
  from Cons.prems obtain r where pv: "parseAndValidate E p = Inr r"
    by (auto split: sum.splits)
  then have r: "r = parsed_of E p" and pr: "parse E p = Inr r"
    using parseAndValidate_Inr by blast+
  from Cons.prems pv have undef: "object_get pk0 (name r) = Undefined"
    by (auto split: if_splits)
  let ?pk1 = "pk0 @ [(name r, package_of E r)]"
  from Cons.prems pv undef obtain tr' where
    rec: "checkPackagesAvailableLocally_loop E ps ?pk1 = (Inr pk, tr')"
    and tr: "tr = Probed (name r @ path r) # tr'"
    by (auto simp: Let_def package_of_def split: prod.splits)
  note IH = Cons.IH [OF rec]
  from undef have fresh: "name r \<notin> fst ` set pk0" "name r \<notin> set object_prototype_members"
    using object_get_defined [of pk0 "name r"] by auto
  show ?case
    using IH fresh pv tr r by (auto simp: probe_target_parsed_of)
qed

lemma loop_Inl:
  "checkPackagesAvailableLocally_loop E ps pk0 = (Inl e, tr) \<Longrightarrow>
     \<exists>i < length ps.
       tr = map (\<lambda>p. Probed (probe_target E p)) (take i ps) \<and>
       (parseAndValidate E (ps ! i) = Inl e \<or>
        (parseAndValidate E (ps ! i) = Inr (parsed_of E (ps ! i)) \<and>
         e = DuplicatePackageRequest (ps ! i) (name (parsed_of E (ps ! i))) \<and>
         (name (parsed_of E (ps ! i)) \<in> set object_prototype_members \<or>
          name (parsed_of E (ps ! i)) \<in> fst ` set pk0 \<or>
          name (parsed_of E (ps ! i)) \<in> (\<lambda>p. name (parsed_of E p)) ` set (take i ps))))"
proof (induction ps arbitrary: pk0 tr)
  case Nil
  then show ?case by simp
next
  case (Cons p ps)
  show ?case
  proof (cases "parseAndValidate E p")
    case (Inl e')
    with Cons.prems have "e' = e" "tr = []" by auto
    with Inl show ?thesis by (intro exI [of _ 0]) simp
  next
    case (Inr r)
    then have r: "r = parsed_of E p"
      using parseAndValidate_Inr by blast
    show ?thesis
    proof (cases "object_get pk0 (name r) = Undefined")
      case False
      with Cons.prems Inr have "e = DuplicatePackageRequest p (name r)" "tr = []" by auto
      moreover from False have "name r \<in> fst ` set pk0 \<or> name r \<in> set object_prototype_members"
        using object_get_defined [of pk0 "name r"] by auto
      ultimately show ?thesis
        using Inr r by (intro exI [of _ 0]) auto
    next
      case True
      let ?pk1 = "pk0 @ [(name r, package_of E r)]"
      from Cons.prems Inr True obtain tr' where
        rec: "checkPackagesAvailableLocally_loop E ps ?pk1 = (Inl e, tr')"
        and tr: "tr = Probed (name r @ path r) # tr'"
        by (auto simp: Let_def package_of_def split: prod.splits)
      from Cons.IH [OF rec] obtain i where i: "i < length ps"
        and tr': "tr' = map (\<lambda>p. Probed (probe_target E p)) (take i ps)"
        and why: "parseAndValidate E (ps ! i) = Inl e \<or>
          (parseAndValidate E (ps ! i) = Inr (parsed_of E (ps ! i)) \<and>
           e = DuplicatePackageRequest (ps ! i) (name (parsed_of E (ps ! i))) \<and>
           (name (parsed_of E (ps ! i)) \<in> set object_prototype_members \<or>
            name (parsed_of E (ps ! i)) \<in> fst ` set ?pk1 \<or>
            name (parsed_of E (ps ! i)) \<in> (\<lambda>p. name (parsed_of E p)) ` set (take i ps)))"
        by blast
      show ?thesis
        using i tr tr' why r
        by (intro exI [of _ "Suc i"]) (auto simp: probe_target_parsed_of)
    qed
  qed
qed

lemma npxImport_validation_error:
  assumes "result_of (npxImport E C pkg) = Inl e" and "validation_error e"
  shows "\<exists>tr. checkPackagesAvailableLocally E pkg = (Inl e, tr)
              \<and> npxImport E C pkg = (Inl e, C, tr)"
proof (cases "checkPackagesAvailableLocally E pkg")
  case (Pair res tr)
  show ?thesis
  proof (cases res)
    case (Inl e')
    with Pair assms show ?thesis
      by (simp add: npxImport_def result_of_def)
  next
    case (Inr packages)
    with Pair assms show ?thesis
      by (auto simp: npxImport_def result_of_def Let_def split: if_splits prod.splits sum.splits)
  qed
qed

text \<open>
  C2 (amended). A validation error raised for the specifier at position \<open>i\<close> aborts
  \<open>npxImport\<close> before that specifier and any later one is probed, before any command is run
  and with the cache as it was; the \<open>i\<close> specifiers in front of it have been probed, in
  input order. The specifier at position \<open>i\<close> is the one rejected: \<open>parseAndValidate\<close>
  fails on it, or its name is taken already.
\<close>

theorem validation_aborts_at_offender:
  assumes "result_of (npxImport E C pkg) = Inl e" and "validation_error e"
  shows "cache_of (npxImport E C pkg) = C \<and>
         commands (trace_of (npxImport E C pkg)) = [] \<and>
         (\<exists>i < length (as_array pkg).
            trace_of (npxImport E C pkg)
              = map (\<lambda>p. Probed (probe_target E p)) (take i (as_array pkg)) \<and>
            (parseAndValidate E (as_array pkg ! i) = Inl e \<or>
             e = DuplicatePackageRequest (as_array pkg ! i)
                   (name (parsed_of E (as_array pkg ! i)))))"
proof -
  from npxImport_validation_error [OF assms] obtain tr where
    chk: "checkPackagesAvailableLocally E pkg = (Inl e, tr)"
    and run: "npxImport E C pkg = (Inl e, C, tr)"
    by blast
  from chk have "checkPackagesAvailableLocally_loop E (as_array pkg) [] = (Inl e, tr)"
    by (simp add: checkPackagesAvailableLocally_def)
  from loop_Inl [OF this] obtain i where i: "i < length (as_array pkg)"
    and tr: "tr = map (\<lambda>p. Probed (probe_target E p)) (take i (as_array pkg))"
    and why: "parseAndValidate E (as_array pkg ! i) = Inl e \<or>
              e = DuplicatePackageRequest (as_array pkg ! i)
                    (name (parsed_of E (as_array pkg ! i)))"
    by blast
  have "commands (map (\<lambda>p. Probed (probe_target E p)) xs) = []" for xs
    by (induction xs) simp_all
  with i tr why run show ?thesis
    by (auto simp: cache_of_def trace_of_def)
qed

theorem validation_aborts_at_offender_witness:
  "validation_error (InvalidSpecifier ''./x'') \<and>
   commands (trace_of (npxImport (example_env [''pkg-a''] npx_out) Map.empty
                         (Array [''pkg-a'', ''./x'']))) = []"
proof -
  have r: "result_of (npxImport (example_env [''pkg-a''] npx_out) Map.empty
             (Array [''pkg-a'', ''./x''])) = Inl (InvalidSpecifier ''./x'')"
    by code_simp
  have v: "validation_error (InvalidSpecifier ''./x'')"
    by simp
  from validation_aborts_at_offender [OF r v] v show ?thesis
    by blast
qed

theorem probe_before_validation_counterexample:
  "result_of (npxImport (example_env [''pkg-a''] npx_out) Map.empty
                (Array [''pkg-a'', ''./x''])) = Inl (InvalidSpecifier ''./x'') \<and>
   probes (trace_of (npxImport (example_env [''pkg-a''] npx_out) Map.empty
                       (Array [''pkg-a'', ''./x'']))) = [''pkg-a'']"
  by code_simp

section \<open>The temporary installer\<close>

lemma installAndReturnDir_run:
  assumes "execaCommand E (fullCmd_of packages) True = Inr r" and "\<not> failed r"
  shows "fst (installAndReturnDir E packages) =
           (case find (sublist ''/.npm/_npx/'') (split_on (CHR '':'') (stdout r)) of
              None \<Rightarrow> Inl (TempDirNotFound (split_on (CHR '':'') (stdout r)))
            | Some tempPath \<Rightarrow>
                if suffix ''node_modules'' (path_resolve E tempPath ''..'')
                then Inr (path_resolve E tempPath ''..'')
                else Inl (UnexpectedInstallLayout tempPath))"
  using assms by (simp add: installAndReturnDir_def Let_def split: option.splits)

lemma installAndReturnDir_Inr:
  assumes "fst (installAndReturnDir E packages) = Inr d"
  shows "\<exists>r t. execaCommand E (fullCmd_of packages) True = Inr r \<and> \<not> failed r \<and>
               find (sublist ''/.npm/_npx/'') (split_on (CHR '':'') (stdout r)) = Some t \<and>
               d = path_resolve E t ''..'' \<and> suffix ''node_modules'' d"
  using assms
  by (auto simp: installAndReturnDir_def Let_def split: sum.splits if_splits option.splits)

lemma commands_installAndReturnDir:
  "commands (snd (installAndReturnDir E packages)) = [(fullCmd_of packages, True)]"
  by (simp add: installAndReturnDir_def Let_def split: sum.splits option.splits)

lemma probes_installAndReturnDir: "probes (snd (installAndReturnDir E packages)) = []"
  by (simp add: installAndReturnDir_def Let_def split: sum.splits option.splits)

lemma relative_imports_installAndReturnDir:
  "relative_imports (snd (installAndReturnDir E packages)) = []"
  by (simp add: installAndReturnDir_def Let_def split: sum.splits option.splits)

lemma sublist_in_tail: "sublist x z \<Longrightarrow> sublist x (y @ z)"
  by (simp add: sublist_append)

lemma sublist_in_head: "sublist x y \<Longrightarrow> sublist x (y @ z)"
  by (simp add: sublist_append)

lemma TempDirNotFound_lists:
  assumes "p \<in> set paths"
  shows "sublist (json_string p) (message (TempDirNotFound paths))"
proof -
  from assms have "json_string p \<in> set (map json_string paths)"
    by simp
  then have "sublist (json_string p) (join '','' (map json_string paths))"
    by (rule join_sublist)
  then have "sublist (json_string p) (JSON_stringify paths)"
    unfolding JSON_stringify_def by (intro sublist_in_tail sublist_in_head)
  then show ?thesis
    unfolding message.simps by (intro sublist_in_tail)
qed

text \<open>
  C3. Once the install command has run without failure, its output is split at every
  \<open>:\<close> (the path-list separator of the platforms npx's cache pattern is written for). If
  no segment contains \<open>/.npm/_npx/\<close>, installAndReturnDir fails with TempDirNotFound, whose
  message ends with the JSON array of all the segments and so lists each of them. Otherwise
  the first segment that contains the pattern is the one selected: the outcome is decided
  by the parent directory of that segment alone.
\<close>

theorem installAndReturnDir_selects_first_segment:
  assumes "execaCommand E (fullCmd_of packages) True = Inr r" and "\<not> failed r"
    and "paths = split_on (CHR '':'') (stdout r)"
  shows "((\<forall>p \<in> set paths. \<not> sublist ''/.npm/_npx/'' p) \<longrightarrow>
            fst (installAndReturnDir E packages) = Inl (TempDirNotFound paths) \<and>
            suffix (JSON_stringify paths) (message (TempDirNotFound paths)) \<and>
            (\<forall>p \<in> set paths. sublist (json_string p) (message (TempDirNotFound paths)))) \<and>
         (\<forall>i < length paths.
            sublist ''/.npm/_npx/'' (paths ! i) \<and> (\<forall>j < i. \<not> sublist ''/.npm/_npx/'' (paths ! j)) \<longrightarrow>
            fst (installAndReturnDir E packages) =
              (if suffix ''node_modules'' (path_resolve E (paths ! i) ''..'')
               then Inr (path_resolve E (paths ! i) ''..'')
               else Inl (UnexpectedInstallLayout (paths ! i))))"
proof (intro conjI impI allI)
  assume none: "\<forall>p \<in> set paths. \<not> sublist ''/.npm/_npx/'' p"
  then have "find (sublist ''/.npm/_npx/'') paths = None"
    by (simp add: find_None_iff)
  with assms show "fst (installAndReturnDir E packages) = Inl (TempDirNotFound paths)"
    by (simp add: installAndReturnDir_run)
  show "suffix (JSON_stringify paths) (message (TempDirNotFound paths))"
    by (simp add: suffix_def)
  show "\<forall>p \<in> set paths. sublist (json_string p) (message (TempDirNotFound paths))"
    using TempDirNotFound_lists by blast
next
  fix i
  assume i: "i < length paths"
    and first: "sublist ''/.npm/_npx/'' (paths ! i) \<and> (\<forall>j < i. \<not> sublist ''/.npm/_npx/'' (paths ! j))"
  then have "find (sublist ''/.npm/_npx/'') paths = Some (paths ! i)"
    by (auto simp: find_Some_iff)
  with assms show "fst (installAndReturnDir E packages) =
      (if suffix ''node_modules'' (path_resolve E (paths ! i) ''..'')
       then Inr (path_resolve E (paths ! i) ''..'')
       else Inl (UnexpectedInstallLayout (paths ! i)))"
    by (simp add: installAndReturnDir_run)
qed

theorem installAndReturnDir_selects_first_segment_witness:
  "fst (installAndReturnDir (example_env [] ''/usr/local/bin:/usr/bin'') [example_missing])
     = Inl (TempDirNotFound [''/usr/local/bin'', ''/usr/bin'']) \<and>
   fst (installAndReturnDir (example_env [] npx_out) [example_missing])
     = Inr ''/home/u/.npm/_npx/0123abcd/node_modules''"
proof -
  let ?E = "example_env [] ''/usr/local/bin:/usr/bin''"
  let ?r = "\<lparr>failed = False, stdout = ''/usr/local/bin:/usr/bin''\<rparr>"
  have e: "execaCommand ?E (fullCmd_of [example_missing]) True = Inr ?r"
    by code_simp
  have f: "\<not> failed ?r"
    by simp
  have s: "[''/usr/local/bin'', ''/usr/bin''] = split_on (CHR '':'') (stdout ?r)"
    by code_simp
  have n: "\<forall>p \<in> set [''/usr/local/bin'', ''/usr/bin'']. \<not> sublist ''/.npm/_npx/'' p"
    by code_simp
  let ?E' = "example_env [] npx_out"
  let ?r' = "\<lparr>failed = False, stdout = npx_out\<rparr>"
  have e': "execaCommand ?E' (fullCmd_of [example_missing]) True = Inr ?r'"
    by code_simp
  have f': "\<not> failed ?r'"
    by simp
  have i: "0 < length (split_on (CHR '':'') (stdout ?r'))"
    by code_simp
  have m: "sublist ''/.npm/_npx/'' (split_on (CHR '':'') (stdout ?r') ! 0)"
    by code_simp
  have p: "path_resolve ?E' (split_on (CHR '':'') (stdout ?r') ! 0) ''..''
             = ''/home/u/.npm/_npx/0123abcd/node_modules''"
    by code_simp
  have q: "suffix ''node_modules'' ''/home/u/.npm/_npx/0123abcd/node_modules''"
    by code_simp
  from installAndReturnDir_selects_first_segment [OF e f s] n
  have 1: "fst (installAndReturnDir ?E [example_missing])
             = Inl (TempDirNotFound [''/usr/local/bin'', ''/usr/bin''])"
    by blast
  from installAndReturnDir_selects_first_segment [OF e' f' refl] i m
  have "fst (installAndReturnDir ?E' [example_missing]) =
          (if suffix ''node_modules'' (path_resolve ?E' (split_on (CHR '':'') (stdout ?r') ! 0) ''..'')
           then Inr (path_resolve ?E' (split_on (CHR '':'') (stdout ?r') ! 0) ''..'')
           else Inl (UnexpectedInstallLayout (split_on (CHR '':'') (stdout ?r') ! 0)))"
    by blast
  with p q have 2: "fst (installAndReturnDir ?E' [example_missing])
                      = Inr ''/home/u/.npm/_npx/0123abcd/node_modules''"
    by simp
  from 1 2 show ?thesis by simp
qed

lemma fst_checkNpxVersion_trace: "snd (checkNpxVersion E) = [Executed ''npx --version'' False]"
  by (simp add: checkNpxVersion_def Let_def split: sum.splits)

lemma commands_import_missing:
  "commands (snd (snd (import_missing E d ms allp C))) = []"
proof (induction ms arbitrary: allp C)
  case Nil
  then show ?case by simp
next
  case (Cons m ms)
  then show ?case
    by (simp add: Let_def split: sum.splits prod.splits)
       (metis snd_conv)
qed

lemma probes_import_missing:
  "probes (snd (snd (import_missing E d ms allp C))) = []"
proof (induction ms arbitrary: allp C)
  case Nil
  then show ?case by simp
next
  case (Cons m ms)
  then show ?case
    by (simp add: Let_def split: sum.splits prod.splits)
       (metis snd_conv)
qed

lemma npxImport_try_commands:
  assumes "fst (checkNpxVersion E) = Inr u"
  shows "commands (snd (snd (npxImport_try E C allp ms ls)))
           = [(''npx --version'', False), (fullCmd_of ms, True)]"
proof -
  obtain tr1 where v: "checkNpxVersion E = (Inr u, tr1)"
    using assms by (cases "checkNpxVersion E") simp
  then have tr1: "tr1 = [Executed ''npx --version'' False]"
    using fst_checkNpxVersion_trace [of E] by simp
  obtain res2 tr2 where i: "installAndReturnDir E ms = (res2, tr2)"
    by (cases "installAndReturnDir E ms")
  then have tr2: "commands tr2 = [(fullCmd_of ms, True)]"
    using commands_installAndReturnDir [of E ms] by simp
  show ?thesis
  proof (cases res2)
    case (Inl e)
    with v i tr1 tr2 show ?thesis
      by (simp add: npxImport_try_def commands_append)
  next
    case (Inr d)
    obtain res3 C3 tr3 where m: "import_missing E d ms allp C = (res3, C3, tr3)"
      by (cases "import_missing E d ms allp C")
    then have "commands tr3 = []"
      using commands_import_missing [of E d ms allp C] by simp
    with v i tr1 tr2 Inr m show ?thesis
      by (cases res3) (simp_all add: npxImport_try_def commands_append)
  qed
qed

text \<open>
  C6. installAndReturnDir runs exactly one command, through the shell: \<open>npx -y\<close>, then
  \<open>-p\<close> and the formatted specification of each package in the order of the list it is
  given, then the command that prints the search path. A specification is
  \<open>name@version\<close>, inside single quotes exactly when it contains \<open><\<close>, \<open>>\<close> or
  \<open>*\<close>. In \<open>npxImport\<close>, when some package is missing and the version check passes, the
  commands run are the version query and that one install command for the missing list.
\<close>

theorem one_install_invocation:
  "commands (snd (installAndReturnDir E packages))
     = [(''npx -y '' @ join '' '' (map (\<lambda>p. ''-p '' @ formatForCLI p) packages)
           @ '' '' @ ''node -e '' @ [SQ] @ ''console.log(process.env.PATH)'' @ [SQ], True)] \<and>
   formatForCLI p =
     (if CHR ''<'' \<in> set (name p @ ''@'' @ version p) \<or> CHR ''>'' \<in> set (name p @ ''@'' @ version p)
         \<or> CHR ''*'' \<in> set (name p @ ''@'' @ version p)
      then [SQ] @ name p @ ''@'' @ version p @ [SQ] else name p @ ''@'' @ version p) \<and>
   (checkPackagesAvailableLocally E pkg = (Inr pks, tr0) \<and>
    missing = filter (\<lambda>p. imported p = NOT_IMPORTABLE) (object_values pks) \<and>
    missing \<noteq> [] \<and> fst (checkNpxVersion E) = Inr u \<longrightarrow>
      commands (trace_of (npxImport E C pkg))
        = [(''npx --version'', False), (fullCmd_of missing, True)])"
proof (intro conjI impI)
  show "commands (snd (installAndReturnDir E packages))
     = [(''npx -y '' @ join '' '' (map (\<lambda>p. ''-p '' @ formatForCLI p) packages)
           @ '' '' @ ''node -e '' @ [SQ] @ ''console.log(process.env.PATH)'' @ [SQ], True)]"
    unfolding commands_installAndReturnDir fullCmd_of_def installPackage_of_def emitPath_def
    by simp
  show "formatForCLI p =
     (if CHR ''<'' \<in> set (name p @ ''@'' @ version p) \<or> CHR ''>'' \<in> set (name p @ ''@'' @ version p)
         \<or> CHR ''*'' \<in> set (name p @ ''@'' @ version p)
      then [SQ] @ name p @ ''@'' @ version p @ [SQ] else name p @ ''@'' @ version p)"
    by (auto simp: formatForCLI_def Let_def list_ex_iff)
next
  assume a: "checkPackagesAvailableLocally E pkg = (Inr pks, tr0) \<and>
    missing = filter (\<lambda>p. imported p = NOT_IMPORTABLE) (object_values pks) \<and>
    missing \<noteq> [] \<and> fst (checkNpxVersion E) = Inr u"
  let ?all = "object_values pks"
  let ?loc = "filter (\<lambda>p. imported p \<noteq> NOT_IMPORTABLE) ?all"
  obtain res C' tr' where t: "npxImport_try E C ?all missing ?loc = (res, C', tr')"
    by (cases "npxImport_try E C ?all missing ?loc")
  from a have "commands tr' = [(''npx --version'', False), (fullCmd_of missing, True)]"
    using npxImport_try_commands [of E u C ?all missing ?loc] t by simp
  moreover have "commands tr0 = []"
  proof -
    from a have "checkPackagesAvailableLocally_loop E (as_array pkg) [] = (Inr pks, tr0)"
      by (simp add: checkPackagesAvailableLocally_def)
    from loop_Inr [OF this] have "tr0 = map (\<lambda>p. Probed (probe_target E p)) (as_array pkg)"
      by blast
    moreover have "commands (map (\<lambda>p. Probed (probe_target E p)) xs) = []" for xs
      by (induction xs) simp_all
    ultimately show ?thesis by simp
  qed
  moreover from a have chk: "checkPackagesAvailableLocally E pkg = (Inr pks, tr0)"
    and m: "filter (\<lambda>p. imported p = NOT_IMPORTABLE) (object_values pks) = missing"
    and ne: "missing \<noteq> []"
    by blast+
  ultimately show "commands (trace_of (npxImport E C pkg))
        = [(''npx --version'', False), (fullCmd_of missing, True)]"
    using t
    by (cases res) (simp_all add: npxImport_def trace_of_def Let_def commands_append)
qed

theorem one_install_invocation_witness:
  "commands (trace_of (npxImport (example_env [''pkg-a''] npx_out) Map.empty
                         (Array [''pkg-a'', ''pkg-b'', ''pkg-c@<2''])))
     = [(''npx --version'', False),
        (''npx -y -p pkg-b@latest -p '' @ [SQ] @ ''pkg-c@<2'' @ [SQ] @ '' node -e '' @ [SQ]
           @ ''console.log(process.env.PATH)'' @ [SQ], True)]"
proof -
  let ?E = "example_env [''pkg-a''] npx_out"
  let ?pkg = "Array [''pkg-a'', ''pkg-b'', ''pkg-c@<2'']"
  let ?pks = "[(''pkg-a'', package_of ?E \<lparr>name = ''pkg-a'', version = ''latest'', path = []\<rparr>),
               (''pkg-b'', package_of ?E \<lparr>name = ''pkg-b'', version = ''latest'', path = []\<rparr>),
               (''pkg-c'', package_of ?E \<lparr>name = ''pkg-c'', version = ''<2'', path = []\<rparr>)]"
  let ?missing = "[package_of ?E \<lparr>name = ''pkg-b'', version = ''latest'', path = []\<rparr>,
                   package_of ?E \<lparr>name = ''pkg-c'', version = ''<2'', path = []\<rparr>]"
  have c: "checkPackagesAvailableLocally ?E ?pkg
             = (Inr ?pks, snd (checkPackagesAvailableLocally ?E ?pkg))"
    by (simp add: prod_eq_iff, code_simp)
  have m: "?missing = filter (\<lambda>p. imported p = NOT_IMPORTABLE) (object_values ?pks)"
    by code_simp
  have n: "?missing \<noteq> []"
    by simp
  have v: "fst (checkNpxVersion ?E) = Inr ()"
    by code_simp
  have f: "fullCmd_of ?missing
             = ''npx -y -p pkg-b@latest -p '' @ [SQ] @ ''pkg-c@<2'' @ [SQ] @ '' node -e '' @ [SQ]
                 @ ''console.log(process.env.PATH)'' @ [SQ]"
    by code_simp
  from one_install_invocation [of ?E _ _ ?pkg ?pks _ ?missing "()" Map.empty] c m n v
  have "commands (trace_of (npxImport ?E Map.empty ?pkg))
          = [(''npx --version'', False), (fullCmd_of ?missing, True)]"
    by blast
  with f show ?thesis by simp
qed

text \<open>
  C7 (amended). The directory installAndReturnDir returns is \<open>path.resolve(tempPath, '..')\<close>
  for the selected segment \<open>tempPath\<close>, and as a string it ends with \<open>node_modules\<close>;
  where the resolved parent does not end with these characters, the call fails with
  UnexpectedInstallLayout. The test is \<open>endsWith\<close> on the path string, not a comparison of
  its last component.
\<close>

theorem installAndReturnDir_parent_suffix:
  "(fst (installAndReturnDir E packages) = Inr d \<longrightarrow>
      suffix ''node_modules'' d \<and>
      (\<exists>r t. execaCommand E (fullCmd_of packages) True = Inr r \<and> \<not> failed r \<and>
             find (sublist ''/.npm/_npx/'') (split_on (CHR '':'') (stdout r)) = Some t \<and>
             d = path_resolve E t ''..'')) \<and>
   (execaCommand E (fullCmd_of packages) True = Inr r \<and> \<not> failed r \<and>
    find (sublist ''/.npm/_npx/'') (split_on (CHR '':'') (stdout r)) = Some t \<and>
    \<not> suffix ''node_modules'' (path_resolve E t ''..'') \<longrightarrow>
      fst (installAndReturnDir E packages) = Inl (UnexpectedInstallLayout t))"
proof (intro conjI impI)
  assume "fst (installAndReturnDir E packages) = Inr d"
  from installAndReturnDir_Inr [OF this]
  show "suffix ''node_modules'' d"
    and "\<exists>r t. execaCommand E (fullCmd_of packages) True = Inr r \<and> \<not> failed r \<and>
             find (sublist ''/.npm/_npx/'') (split_on (CHR '':'') (stdout r)) = Some t \<and>
             d = path_resolve E t ''..''"
    by blast+
next
  assume a: "execaCommand E (fullCmd_of packages) True = Inr r \<and> \<not> failed r \<and>
    find (sublist ''/.npm/_npx/'') (split_on (CHR '':'') (stdout r)) = Some t \<and>
    \<not> suffix ''node_modules'' (path_resolve E t ''..'')"
  then have "execaCommand E (fullCmd_of packages) True = Inr r" and "\<not> failed r"
    by blast+
  from installAndReturnDir_run [OF this] a
  show "fst (installAndReturnDir E packages) = Inl (UnexpectedInstallLayout t)"
    by simp
qed

theorem installAndReturnDir_parent_suffix_witness:
  "suffix ''node_modules'' ''/home/u/.npm/_npx/0123abcd/node_modules'' \<and>
   fst (installAndReturnDir (example_env [] ''/home/u/.npm/_npx/0123abcd/lib/.bin'') [example_missing])
     = Inl (UnexpectedInstallLayout ''/home/u/.npm/_npx/0123abcd/lib/.bin'')"
proof -
  let ?E = "example_env [] npx_out"
  have 1: "fst (installAndReturnDir ?E [example_missing])
             = Inr ''/home/u/.npm/_npx/0123abcd/node_modules''"
    by code_simp
  let ?E' = "example_env [] ''/home/u/.npm/_npx/0123abcd/lib/.bin''"
  let ?r = "\<lparr>failed = False, stdout = ''/home/u/.npm/_npx/0123abcd/lib/.bin''\<rparr>"
  have 2: "execaCommand ?E' (fullCmd_of [example_missing]) True = Inr ?r \<and> \<not> failed ?r \<and>
           find (sublist ''/.npm/_npx/'') (split_on (CHR '':'') (stdout ?r))
             = Some ''/home/u/.npm/_npx/0123abcd/lib/.bin'' \<and>
           \<not> suffix ''node_modules'' (path_resolve ?E' ''/home/u/.npm/_npx/0123abcd/lib/.bin'' ''..'')"
    by code_simp
  from installAndReturnDir_parent_suffix
         [of ?E "[example_missing]" "''/home/u/.npm/_npx/0123abcd/node_modules''"] 1
  have "suffix ''node_modules'' ''/home/u/.npm/_npx/0123abcd/node_modules''"
    by blast
  moreover from installAndReturnDir_parent_suffix [of ?E' "[example_missing]" _ ?r] 2
  have "fst (installAndReturnDir ?E' [example_missing])
          = Inl (UnexpectedInstallLayout ''/home/u/.npm/_npx/0123abcd/lib/.bin'')"
    by blast
  ultimately show ?thesis by blast
qed

theorem parent_not_node_modules_counterexample:
  "fst (installAndReturnDir (example_env [] odd_out) [example_missing])
     = Inr ''/home/u/.npm/_npx/0123abcd/xnode_modules'' \<and>
   last_component ''/home/u/.npm/_npx/0123abcd/xnode_modules'' = ''xnode_modules'' \<and>
   ''xnode_modules'' \<noteq> ''node_modules''"
  by code_simp

section \<open>The install phase\<close>

lemma import_missing_complete:
  assumes "import_missing E d ms allp C = (Inr allp', C', tr)"
    and "\<forall>p \<in> set allp. imported p = NOT_IMPORTABLE \<longrightarrow> name p \<in> name ` set ms"
  shows "(\<forall>p \<in> set allp'. imported p \<noteq> NOT_IMPORTABLE) \<and> length allp' = length allp"
  using assms
proof (induction ms arbitrary: allp C tr)
  case Nil
  then show ?case by auto
next
  case (Cons m ms)
  from Cons.prems(1) obtain x where x: "u_importRelative E d (packageWithPath m) = Inr x"
    by (auto split: sum.splits)
  let ?allp1 = "set_imported (name m) x allp"
  from Cons.prems(1) x obtain tr' where
    rec: "import_missing E d ms ?allp1 (C(name m \<mapsto> InstalledAt d)) = (Inr allp', C', tr')"
    by (auto simp: Let_def split: prod.splits)
  have "\<forall>p \<in> set ?allp1. imported p = NOT_IMPORTABLE \<longrightarrow> name p \<in> name ` set ms"
    using Cons.prems(2) by (auto simp: set_imported_def)
  from Cons.IH [OF rec this] show ?case
    by (simp add: set_imported_def)
qed

lemma npxImport_try_Inr:
  assumes "npxImport_try E C allp ms ls = (Inr allp', C', tr)"
  shows "\<exists>d C1 tr3. import_missing E d ms allp C = (Inr allp', C1, tr3)"
  using assms
  by (auto simp: npxImport_try_def split: prod.splits sum.splits)

lemma npxImport_try_Inl:
  "fst (npxImport_try E C allp ms ls) = Inl e \<longleftrightarrow>
     fst (checkNpxVersion E) = Inl e \<or>
     ((\<exists>u. fst (checkNpxVersion E) = Inr u) \<and> fst (installAndReturnDir E ms) = Inl e) \<or>
     ((\<exists>u. fst (checkNpxVersion E) = Inr u) \<and>
      (\<exists>d. fst (installAndReturnDir E ms) = Inr d \<and> fst (import_missing E d ms allp C) = Inl e))"
  by (auto simp: npxImport_try_def split: prod.splits sum.splits)

lemma npxImport_complete:
  fixes E :: "'m env"
  assumes "result_of (npxImport E C pkg) = Inr res"
  shows "every_module pkg res"
proof -
  obtain r0 tr0 where chk: "checkPackagesAvailableLocally E pkg = (r0, tr0)"
    by (cases "checkPackagesAvailableLocally E pkg")
  with assms obtain pks where r0: "r0 = Inr pks"
    by (cases r0) (auto simp: npxImport_def result_of_def)
  let ?all = "object_values pks"
  let ?mis = "filter (\<lambda>p. imported p = NOT_IMPORTABLE) ?all"
  let ?loc = "filter (\<lambda>p. imported p \<noteq> NOT_IMPORTABLE) ?all"
  from chk r0 have "checkPackagesAvailableLocally_loop E (as_array pkg) [] = (Inr pks, tr0)"
    by (simp add: checkPackagesAvailableLocally_def)
  from loop_Inr [OF this] have "length pks = length (as_array pkg)"
    by simp
  then have len: "length ?all = length (as_array pkg)"
    by (simp add: length_object_values)
  have "\<exists>allp' :: 'm Package list.
          res = returned pkg (map imported allp') \<and> length allp' = length ?all
                \<and> (\<forall>p \<in> set allp'. imported p \<noteq> NOT_IMPORTABLE)"
  proof (cases "?mis = []")
    case True
    then have a: "\<forall>p \<in> set ?all. imported p \<noteq> NOT_IMPORTABLE"
      by (simp add: filter_empty_conv)
    from True assms chk r0 have b: "res = returned pkg (map imported ?all)"
      by (simp add: npxImport_def result_of_def Let_def)
    show ?thesis
    proof (intro exI conjI)
      show "res = returned pkg (map imported ?all)" by (fact b)
      show "length ?all = length ?all" by simp
      show "\<forall>p \<in> set ?all. imported p \<noteq> NOT_IMPORTABLE" by (fact a)
    qed
  next
    case False
    obtain r1 C1 tr1 where t: "npxImport_try E C ?all ?mis ?loc = (r1, C1, tr1)"
      by (cases "npxImport_try E C ?all ?mis ?loc")
    with False assms chk r0 obtain allp' where r1: "r1 = Inr allp'"
      and res: "res = returned pkg (map imported allp')"
      by (cases r1) (auto simp: npxImport_def result_of_def Let_def)
    from npxImport_try_Inr t r1 obtain d C2 tr3 where
      "import_missing E d ?mis ?all C = (Inr allp', C2, tr3)"
      by blast
    from import_missing_complete [OF this] res show ?thesis
      by auto
  qed
  then obtain allp' :: "'m Package list" where res: "res = returned pkg (map imported allp')"
    and l: "length allp' = length (as_array pkg)"
    and ok: "\<forall>p \<in> set allp'. imported p \<noteq> NOT_IMPORTABLE"
    using len by auto
  show ?thesis
  proof (cases pkg)
    case (Single p)
    with l obtain a where "allp' = [a]"
      by (cases allp') (auto simp: as_array_def)
    with Single res ok show ?thesis
      by (simp add: every_module_def returned_def)
  next
    case (Array ps)
    with res l ok show ?thesis
      by (auto simp: every_module_def returned_def)
  qed
qed

lemma OrchestrationFailed_message:
  "sublist m (message (OrchestrationFailed pwps m ns instr))"
  "sublist instr (message (OrchestrationFailed pwps m ns instr))"
  "n \<in> set ns \<Longrightarrow> sublist n (message (OrchestrationFailed pwps m ns instr))"
proof -
  show "sublist m (message (OrchestrationFailed pwps m ns instr))"
    unfolding message.simps
    by (rule sublist_in_tail, rule sublist_in_tail, rule sublist_in_tail, rule sublist_in_tail, rule sublist_in_tail, rule sublist_append_rightI)
  show "sublist instr (message (OrchestrationFailed pwps m ns instr))"
    unfolding message.simps
    by (rule sublist_in_tail, rule sublist_in_tail, rule sublist_in_tail, rule sublist_in_tail, rule sublist_in_tail, rule sublist_in_tail, rule sublist_in_tail, rule sublist_in_tail, rule sublist_in_tail, rule sublist_in_tail, rule sublist_in_tail, rule sublist_in_tail, rule sublist_append_rightI)
  assume "n \<in> set ns"
  then have "sublist n (join '', '' ns)"
    by (rule join_sublist)
  then show "sublist n (message (OrchestrationFailed pwps m ns instr))"
    unfolding message.simps
    by - (rule sublist_in_tail, rule sublist_in_tail, rule sublist_in_tail, rule sublist_in_tail, rule sublist_in_tail, rule sublist_in_tail, rule sublist_in_tail, rule sublist_in_tail, erule sublist_in_head)
qed

text \<open>
  C5. When some package is missing and the version check, the install command or an import
  from the install directory fails with an error \<open>e\<close>, \<open>npxImport\<close> throws one error,
  OrchestrationFailed, and returns no module. Its message contains the message of \<open>e\<close>,
  the name of every missing package, and the install command line of the detected package
  manager for the missing packages. A call that does return holds a module for every
  requested specifier, never the sentinel NOT_IMPORTABLE.
\<close>

theorem install_phase_failure_is_composite:
  fixes E :: "'m env"
  shows
  "(checkPackagesAvailableLocally E pkg = (Inr pks, tr0) \<and>
    missing = filter (\<lambda>p. imported p = NOT_IMPORTABLE) (object_values pks) \<and>
    missing \<noteq> [] \<and>
    (fst (checkNpxVersion E) = Inl e \<or>
     (fst (checkNpxVersion E) = Inr () \<and> fst (installAndReturnDir E missing) = Inl e) \<or>
     (fst (checkNpxVersion E) = Inr () \<and> fst (installAndReturnDir E missing) = Inr d \<and>
      fst (import_missing E d missing (object_values pks) C) = Inl e)) \<longrightarrow>
      result_of (npxImport E C pkg) = Inl (OrchestrationFailed (map packageWithPath missing) (message e)
                 (map name missing) (installInstructions E missing)) \<and>
      sublist (message e) (message (OrchestrationFailed (map packageWithPath missing) (message e)
                 (map name missing) (installInstructions E missing))) \<and>
      (\<forall>p \<in> set missing. sublist (name p) (message (OrchestrationFailed (map packageWithPath missing) (message e)
                 (map name missing) (installInstructions E missing)))) \<and>
      sublist (INSTRUCTIONS (getPackageManager E) (join '' '' (map formatForCLI missing)))
        (message (OrchestrationFailed (map packageWithPath missing) (message e)
                 (map name missing) (installInstructions E missing)))) \<and>
   (result_of (npxImport E C pkg) = Inr res \<longrightarrow> every_module pkg res)"
proof (intro conjI impI)
  assume a: "checkPackagesAvailableLocally E pkg = (Inr pks, tr0) \<and>
    missing = filter (\<lambda>p. imported p = NOT_IMPORTABLE) (object_values pks) \<and>
    missing \<noteq> [] \<and>
    (fst (checkNpxVersion E) = Inl e \<or>
     (fst (checkNpxVersion E) = Inr () \<and> fst (installAndReturnDir E missing) = Inl e) \<or>
     (fst (checkNpxVersion E) = Inr () \<and> fst (installAndReturnDir E missing) = Inr d \<and>
      fst (import_missing E d missing (object_values pks) C) = Inl e))"
  let ?all = "object_values pks"
  let ?loc = "filter (\<lambda>p. imported p \<noteq> NOT_IMPORTABLE) ?all"
  from a have chk: "checkPackagesAvailableLocally E pkg = (Inr pks, tr0)"
    and m: "filter (\<lambda>p. imported p = NOT_IMPORTABLE) ?all = missing"
    and ne: "missing \<noteq> []"
    by blast+
  from a have "fst (npxImport_try E C ?all missing ?loc) = Inl e"
    unfolding npxImport_try_Inl by blast
  then obtain C' tr' where "npxImport_try E C ?all missing ?loc = (Inl e, C', tr')"
    by (cases "npxImport_try E C ?all missing ?loc") auto
  with chk m ne show "result_of (npxImport E C pkg) = Inl (OrchestrationFailed (map packageWithPath missing) (message e)
                 (map name missing) (installInstructions E missing))"
    by (simp add: npxImport_def result_of_def Let_def)
  show "sublist (message e) (message (OrchestrationFailed (map packageWithPath missing) (message e)
                 (map name missing) (installInstructions E missing)))"
    by (rule OrchestrationFailed_message)
  show "\<forall>p \<in> set missing. sublist (name p) (message (OrchestrationFailed (map packageWithPath missing) (message e)
                 (map name missing) (installInstructions E missing)))"
    by (intro ballI OrchestrationFailed_message) simp
  show "sublist (INSTRUCTIONS (getPackageManager E) (join '' '' (map formatForCLI missing)))
          (message (OrchestrationFailed (map packageWithPath missing) (message e)
                 (map name missing) (installInstructions E missing)))"
    unfolding installInstructions_def [symmetric] by (rule OrchestrationFailed_message)
next
  assume "result_of (npxImport E C pkg) = Inr res"
  then show "every_module pkg res"
    by (rule npxImport_complete)
qed

theorem install_phase_failure_is_composite_witness:
  "result_of (npxImport
       (failing_install_env [] ''No matching version found for left-pad@this-tag-no-exist.'')
       Map.empty (Single ''left-pad@this-tag-no-exist''))
     = Inl (OrchestrationFailed [''left-pad'']
              ''No matching version found for left-pad@this-tag-no-exist.''
              [''left-pad''] ''pnpm add -D left-pad@this-tag-no-exist'')"
proof -
  let ?msg = "''No matching version found for left-pad@this-tag-no-exist.''"
  let ?E = "failing_install_env [] ?msg"
  let ?pkg = "Single ''left-pad@this-tag-no-exist''"
  let ?p = "package_of ?E \<lparr>name = ''left-pad'', version = ''this-tag-no-exist'', path = []\<rparr>"
  have c: "checkPackagesAvailableLocally ?E ?pkg
             = (Inr [(''left-pad'', ?p)], snd (checkPackagesAvailableLocally ?E ?pkg))"
    by (simp add: prod_eq_iff, code_simp)
  have m: "[?p] = filter (\<lambda>p. imported p = NOT_IMPORTABLE) (object_values [(''left-pad'', ?p)])"
    by code_simp
  have v: "fst (checkNpxVersion ?E) = Inr ()"
    by code_simp
  have i: "fst (installAndReturnDir ?E [?p]) = Inl (External ?msg)"
    by code_simp
  have x: "map packageWithPath [?p] = [''left-pad'']" "map name [?p] = [''left-pad'']"
    "installInstructions ?E [?p] = ''pnpm add -D left-pad@this-tag-no-exist''"
    by code_simp+
  from install_phase_failure_is_composite
         [where E = ?E and pkg = ?pkg and pks = "[(''left-pad'', ?p)]" and missing = "[?p]"
            and e = "External ?msg" and C = Map.empty] c m v i
  have "result_of (npxImport ?E Map.empty ?pkg)
          = Inl (OrchestrationFailed (map packageWithPath [?p]) (message (External ?msg))
                   (map name [?p]) (installInstructions ?E [?p]))"
    by blast
  then show ?thesis
    unfolding x by simp
qed

section \<open>Versions and subpaths\<close>

lemma parseAndValidate_with_versions:
  "parseAndValidate (with_versions f E) p =
     (case parseAndValidate E p of Inl e \<Rightarrow> Inl e | Inr r \<Rightarrow> Inr (r\<lparr>version := f p\<rparr>))"
  by (simp add: parseAndValidate_def with_versions_def Let_def split: sum.splits)

lemma tryImport_with_versions: "tryImport (with_versions f E) s = tryImport E s"
  by (simp add: tryImport_def with_versions_def)

lemma map_fst_forget_version: "map fst (forget_version pk) = map fst pk"
  by (simp add: forget_version_def comp_def)

lemma object_get_forget_version:
  assumes "forget_version pk1 = forget_version pk2"
  shows "object_get pk1 k = Undefined \<longleftrightarrow> object_get pk2 k = Undefined"
proof -
  from assms have "map fst (forget_version pk1) = map fst (forget_version pk2)"
    by simp
  then have "map fst pk1 = map fst pk2"
    by (simp only: map_fst_forget_version)
  then have "fst ` set pk1 = fst ` set pk2"
    by (metis set_map)
  then show ?thesis
    using object_get_defined [of pk1 k] object_get_defined [of pk2 k] by blast
qed

lemma loop_with_versions:
  fixes E :: "'m env"
  assumes "forget_version pk1 = forget_version pk2"
  shows "snd (checkPackagesAvailableLocally_loop (with_versions f E) ps pk1)
           = snd (checkPackagesAvailableLocally_loop E ps pk2) \<and>
         forget_versions (fst (checkPackagesAvailableLocally_loop (with_versions f E) ps pk1))
           = forget_versions (fst (checkPackagesAvailableLocally_loop E ps pk2))"
  using assms
proof (induction ps arbitrary: pk1 pk2)
  case Nil
  then show ?case by (simp add: forget_versions_def)
next
  case (Cons p ps)
  show ?case
  proof (cases "parseAndValidate E p")
    case (Inl e)
    then show ?thesis
      by (simp add: parseAndValidate_with_versions forget_versions_def)
  next
    case (Inr r)
    then have pv: "parseAndValidate (with_versions f E) p = Inr (r\<lparr>version := f p\<rparr>)"
      by (simp add: parseAndValidate_with_versions)
    show ?thesis
    proof (cases "object_get pk2 (name r) = Undefined")
      case False
      with Cons.prems have "object_get pk1 (name r) \<noteq> Undefined"
        using object_get_forget_version by blast
      with False Inr pv show ?thesis by (simp add: forget_versions_def)
    next
      case True
      with Cons.prems have u: "object_get pk1 (name r) = Undefined"
        using object_get_forget_version by blast
      let ?q1 = "\<lparr>name = name r, version = f p, path = path r,
                  packageWithPath = name r @ path r, imported = tryImport E (name r @ path r),
                  local = (tryImport E (name r @ path r) \<noteq> NOT_IMPORTABLE)\<rparr>"
      let ?q2 = "\<lparr>name = name r, version = version r, path = path r,
                  packageWithPath = name r @ path r, imported = tryImport E (name r @ path r),
                  local = (tryImport E (name r @ path r) \<noteq> NOT_IMPORTABLE)\<rparr>"
      have "forget_version (pk1 @ [(name r, ?q1)]) = forget_version (pk2 @ [(name r, ?q2)])"
        using Cons.prems by (simp add: forget_version_def)
      note IH = Cons.IH [OF this]
      obtain r1 t1 where c1: "checkPackagesAvailableLocally_loop (with_versions f E) ps
                                (pk1 @ [(name r, ?q1)]) = (r1, t1)"
        by (cases "checkPackagesAvailableLocally_loop (with_versions f E) ps
                     (pk1 @ [(name r, ?q1)])")
      obtain r2 t2 where c2: "checkPackagesAvailableLocally_loop E ps
                                (pk2 @ [(name r, ?q2)]) = (r2, t2)"
        by (cases "checkPackagesAvailableLocally_loop E ps (pk2 @ [(name r, ?q2)])")
      from IH c1 c2 have "t1 = t2" "forget_versions r1 = forget_versions r2"
        by (simp_all only: fst_conv snd_conv)
      with True u Inr pv c1 c2 show ?thesis
        by (simp add: Let_def tryImport_with_versions)
    qed
  qed
qed

lemma relative_imports_import_missing:
  "snd ` set (relative_imports (snd (snd (import_missing E d ms allp C))))
     \<subseteq> packageWithPath ` set ms"
proof (induction ms arbitrary: allp C)
  case Nil
  then show ?case by simp
next
  case (Cons m ms)
  show ?case
  proof (cases "u_importRelative E d (packageWithPath m)")
    case (Inl e)
    then show ?thesis by simp
  next
    case (Inr x)
    obtain res C' tr where r: "import_missing E d ms (set_imported (name m) x allp)
                                 (C(name m \<mapsto> InstalledAt d)) = (res, C', tr)"
      by (cases "import_missing E d ms (set_imported (name m) x allp)
                   (C(name m \<mapsto> InstalledAt d))")
    have "snd ` set (relative_imports (snd (snd (import_missing E d ms
             (set_imported (name m) x allp) (C(name m \<mapsto> InstalledAt d))))))
            \<subseteq> packageWithPath ` set ms"
      by (rule Cons.IH)
    with r have "snd ` set (relative_imports tr) \<subseteq> packageWithPath ` set ms"
      by (simp only: snd_conv)
    with Inr r show ?thesis
      by auto
  qed
qed

lemma relative_imports_map_Probed: "relative_imports (map (\<lambda>p. Probed (g p)) xs) = []"
  by (induction xs) simp_all

lemma relative_imports_npxImport_try:
  "snd ` set (relative_imports (snd (snd (npxImport_try E C allp ms ls))))
     \<subseteq> packageWithPath ` set ms"
proof -
  have v: "relative_imports (snd (checkNpxVersion E)) = []"
    by (simp add: fst_checkNpxVersion_trace)
  show ?thesis
  proof (cases "checkNpxVersion E")
    case (Pair r1 tr1)
    with v have tr1: "relative_imports tr1 = []" by simp
    show ?thesis
    proof (cases r1)
      case (Inl e)
      with Pair tr1 show ?thesis by (simp add: npxImport_try_def)
    next
      case (Inr u)
      obtain r2 tr2 where i: "installAndReturnDir E ms = (r2, tr2)"
        by (cases "installAndReturnDir E ms")
      then have tr2: "relative_imports tr2 = []"
        using relative_imports_installAndReturnDir [of E ms] by simp
      show ?thesis
      proof (cases r2)
        case (Inl e)
        with Pair Inr i tr1 tr2 show ?thesis
          by (simp add: npxImport_try_def relative_imports_append)
      next
        case d: (Inr d)
        obtain r3 C3 tr3 where m: "import_missing E d ms allp C = (r3, C3, tr3)"
          by (cases "import_missing E d ms allp C")
        then have "snd ` set (relative_imports tr3) \<subseteq> packageWithPath ` set ms"
          using relative_imports_import_missing [of E d ms allp C] by simp
        with Pair Inr i d m tr1 tr2 show ?thesis
          by (cases r3) (simp_all add: npxImport_try_def relative_imports_append)
      qed
    qed
  qed
qed

lemma probes_npxImport_try: "probes (snd (snd (npxImport_try E C allp ms ls))) = []"
proof -
  have v: "probes (snd (checkNpxVersion E)) = []"
    by (simp add: fst_checkNpxVersion_trace)
  show ?thesis
  proof (cases "checkNpxVersion E")
    case (Pair r1 tr1)
    with v have tr1: "probes tr1 = []" by simp
    show ?thesis
    proof (cases r1)
      case (Inl e)
      with Pair tr1 show ?thesis by (simp add: npxImport_try_def)
    next
      case (Inr u)
      obtain r2 tr2 where i: "installAndReturnDir E ms = (r2, tr2)"
        by (cases "installAndReturnDir E ms")
      then have tr2: "probes tr2 = []"
        using probes_installAndReturnDir [of E ms] by simp
      show ?thesis
      proof (cases r2)
        case (Inl e)
        with Pair Inr i tr1 tr2 show ?thesis
          by (simp add: npxImport_try_def probes_append)
      next
        case d: (Inr d)
        obtain r3 C3 tr3 where m: "import_missing E d ms allp C = (r3, C3, tr3)"
          by (cases "import_missing E d ms allp C")
        then have "probes tr3 = []"
          using probes_import_missing [of E d ms allp C] by simp
        with Pair Inr i d m tr1 tr2 show ?thesis
          by (cases r3) (simp_all add: npxImport_try_def probes_append)
      qed
    qed
  qed
qed

lemma probes_map_probe: "probes (map (\<lambda>p. Probed (g p)) xs) = map g xs"
  by (induction xs) simp_all

lemma npxImport_trace_cases:
  fixes E :: "'m env"
  shows "(\<exists>i \<le> length (as_array pkg).
            trace_of (npxImport E C pkg) = map (\<lambda>p. Probed (probe_target E p)) (take i (as_array pkg))) \<or>
         (\<exists>pks tr0 line (allp :: 'm Package list) ls.
            checkPackagesAvailableLocally E pkg = (Inr pks, tr0) \<and>
            trace_of (npxImport E C pkg) = tr0 @ [Logged line] @
              snd (snd (npxImport_try E C allp
                          (filter (\<lambda>p. imported p = NOT_IMPORTABLE) (object_values pks)) ls)))"
proof (cases "checkPackagesAvailableLocally E pkg")
  case (Pair r0 tr0)
  then have lp: "checkPackagesAvailableLocally_loop E (as_array pkg) [] = (r0, tr0)"
    by (simp add: checkPackagesAvailableLocally_def)
  show ?thesis
  proof (cases r0)
    case (Inl e)
    with lp loop_Inl [of E "as_array pkg" "[]" e tr0] obtain i where
      "i < length (as_array pkg)" "tr0 = map (\<lambda>p. Probed (probe_target E p)) (take i (as_array pkg))"
      by blast
    moreover from Pair Inl have "trace_of (npxImport E C pkg) = tr0"
      by (simp add: npxImport_def trace_of_def)
    ultimately show ?thesis
      by (intro disjI1 exI [of _ i]) simp
  next
    case (Inr pks)
    with lp loop_Inr [of E "as_array pkg" "[]" pks tr0]
    have tr0: "tr0 = map (\<lambda>p. Probed (probe_target E p)) (as_array pkg)"
      by blast
    let ?all = "object_values pks"
    let ?mis = "filter (\<lambda>p. imported p = NOT_IMPORTABLE) ?all"
    let ?loc = "filter (\<lambda>p. imported p \<noteq> NOT_IMPORTABLE) ?all"
    show ?thesis
    proof (cases "?mis = []")
      case True
      with Pair Inr have "trace_of (npxImport E C pkg) = tr0"
        by (simp add: npxImport_def trace_of_def Let_def)
      with tr0 show ?thesis
        by (intro disjI1 exI [of _ "length (as_array pkg)"]) simp
    next
      case False
      obtain r1 C1 tr1 where t: "npxImport_try E C ?all ?mis ?loc = (r1, C1, tr1)"
        by (cases "npxImport_try E C ?all ?mis ?loc")
      with False Pair Inr
      have "trace_of (npxImport E C pkg) = tr0 @ [Logged (missing_line ?mis)] @ tr1"
        by (cases r1) (simp_all add: npxImport_def trace_of_def Let_def)
      with t have "trace_of (npxImport E C pkg) = tr0 @ [Logged (missing_line ?mis)] @
                     snd (snd (npxImport_try E C ?all ?mis ?loc))"
        by simp
      with Pair Inr show ?thesis
        by blast
    qed
  qed
qed

lemma packageWithPath_object_values:
  assumes "checkPackagesAvailableLocally E pkg = (Inr pks, tr0)"
  shows "packageWithPath ` set (object_values pks) = probe_target E ` set (as_array pkg)"
proof -
  from assms have "checkPackagesAvailableLocally_loop E (as_array pkg) [] = (Inr pks, tr0)"
    by (simp add: checkPackagesAvailableLocally_def)
  from loop_Inr [OF this]
  have "pks = map (\<lambda>p. (name (parsed_of E p), package_of E (parsed_of E p))) (as_array pkg)"
    by simp
  then have "snd ` set pks = (\<lambda>p. package_of E (parsed_of E p)) ` set (as_array pkg)"
    by (simp add: image_image)
  then have "packageWithPath ` set (object_values pks)
               = (\<lambda>p. packageWithPath (package_of E (parsed_of E p))) ` set (as_array pkg)"
    by (simp add: set_object_values image_image)
  also have "\<dots> = probe_target E ` set (as_array pkg)"
    by (simp add: package_of_def probe_target_parsed_of)
  finally show ?thesis .
qed

text \<open>
  C8. The version or tag never reaches the probing: whatever versions the parser reports
  (\<open>with_versions f\<close> replaces them all), \<open>checkPackagesAvailableLocally\<close> probes the same
  strings in the same order and comes to the same outcome for every package, the stored
  version apart. And the subpath is kept: every probe of an \<open>npxImport\<close> call and every
  import from the install directory is made with the parsed name followed by the subpath
  of one of the requested specifiers, the probes in input order.
\<close>

theorem version_ignored_subpath_kept:
  fixes E :: "'m env"
  shows
  "snd (checkPackagesAvailableLocally (with_versions f E) pkg)
     = snd (checkPackagesAvailableLocally E pkg) \<and>
   forget_versions (fst (checkPackagesAvailableLocally (with_versions f E) pkg))
     = forget_versions (fst (checkPackagesAvailableLocally E pkg)) \<and>
   prefix (probes (trace_of (npxImport E C pkg))) (map (probe_target E) (as_array pkg)) \<and>
   snd ` set (relative_imports (trace_of (npxImport E C pkg)))
     \<subseteq> probe_target E ` set (as_array pkg) \<and>
   probe_target E p = name (parsed_of E p) @ path (parsed_of E p)"
proof (intro conjI)
  have "forget_version ([] :: 'm Package object) = forget_version []"
    by simp
  from loop_with_versions [OF this, of f E "as_array pkg"]
  show "snd (checkPackagesAvailableLocally (with_versions f E) pkg)
          = snd (checkPackagesAvailableLocally E pkg)"
    and "forget_versions (fst (checkPackagesAvailableLocally (with_versions f E) pkg))
          = forget_versions (fst (checkPackagesAvailableLocally E pkg))"
    by (simp_all add: checkPackagesAvailableLocally_def)
  show "probe_target E p = name (parsed_of E p) @ path (parsed_of E p)"
    by (rule probe_target_parsed_of)
  from npxImport_trace_cases [of pkg E C]
  show "prefix (probes (trace_of (npxImport E C pkg))) (map (probe_target E) (as_array pkg))"
  proof
    assume "\<exists>i \<le> length (as_array pkg).
              trace_of (npxImport E C pkg)
                = map (\<lambda>p. Probed (probe_target E p)) (take i (as_array pkg))"
    then obtain i where
      "trace_of (npxImport E C pkg) = map (\<lambda>p. Probed (probe_target E p)) (take i (as_array pkg))"
      by blast
    then have "probes (trace_of (npxImport E C pkg)) = take i (map (probe_target E) (as_array pkg))"
      by (simp add: probes_map_probe take_map)
    then show ?thesis
      by (simp add: take_is_prefix)
  next
    assume "\<exists>pks tr0 line (allp :: 'm Package list) ls.
              checkPackagesAvailableLocally E pkg = (Inr pks, tr0) \<and>
              trace_of (npxImport E C pkg) = tr0 @ [Logged line] @
                snd (snd (npxImport_try E C allp
                            (filter (\<lambda>p. imported p = NOT_IMPORTABLE) (object_values pks)) ls))"
    then obtain pks tr0 line and allp :: "'m Package list" and ls where
      chk: "checkPackagesAvailableLocally E pkg = (Inr pks, tr0)"
      and tr: "trace_of (npxImport E C pkg) = tr0 @ [Logged line] @
                snd (snd (npxImport_try E C allp
                            (filter (\<lambda>p. imported p = NOT_IMPORTABLE) (object_values pks)) ls))"
      by blast
    from chk have "checkPackagesAvailableLocally_loop E (as_array pkg) [] = (Inr pks, tr0)"
      by (simp add: checkPackagesAvailableLocally_def)
    from loop_Inr [OF this] have "tr0 = map (\<lambda>p. Probed (probe_target E p)) (as_array pkg)"
      by blast
    with tr have "probes (trace_of (npxImport E C pkg)) = map (probe_target E) (as_array pkg)"
      by (simp add: probes_append probes_npxImport_try probes_map_probe)
    then show ?thesis by simp
  qed
  from npxImport_trace_cases [of pkg E C]
  show "snd ` set (relative_imports (trace_of (npxImport E C pkg)))
          \<subseteq> probe_target E ` set (as_array pkg)"
  proof
    assume "\<exists>i \<le> length (as_array pkg).
              trace_of (npxImport E C pkg)
                = map (\<lambda>p. Probed (probe_target E p)) (take i (as_array pkg))"
    then show ?thesis
      by (auto simp: relative_imports_map_Probed)
  next
    assume "\<exists>pks tr0 line (allp :: 'm Package list) ls.
              checkPackagesAvailableLocally E pkg = (Inr pks, tr0) \<and>
              trace_of (npxImport E C pkg) = tr0 @ [Logged line] @
                snd (snd (npxImport_try E C allp
                            (filter (\<lambda>p. imported p = NOT_IMPORTABLE) (object_values pks)) ls))"
    then obtain pks tr0 line and allp :: "'m Package list" and ls where
      chk: "checkPackagesAvailableLocally E pkg = (Inr pks, tr0)"
      and tr: "trace_of (npxImport E C pkg) = tr0 @ [Logged line] @
                snd (snd (npxImport_try E C allp
                            (filter (\<lambda>p. imported p = NOT_IMPORTABLE) (object_values pks)) ls))"
      by blast
    let ?mis = "filter (\<lambda>p. imported p = NOT_IMPORTABLE) (object_values pks)"
    from chk have "checkPackagesAvailableLocally_loop E (as_array pkg) [] = (Inr pks, tr0)"
      by (simp add: checkPackagesAvailableLocally_def)
    from loop_Inr [OF this] have "tr0 = map (\<lambda>p. Probed (probe_target E p)) (as_array pkg)"
      by blast
    with tr have "relative_imports (trace_of (npxImport E C pkg))
                    = relative_imports (snd (snd (npxImport_try E C allp ?mis ls)))"
      by (simp add: relative_imports_append relative_imports_map_Probed)
    then have "snd ` set (relative_imports (trace_of (npxImport E C pkg)))
                 \<subseteq> packageWithPath ` set ?mis"
      using relative_imports_npxImport_try [of E C allp ?mis ls] by simp
    also have "\<dots> \<subseteq> packageWithPath ` set (object_values pks)"
      by auto
    also have "\<dots> = probe_target E ` set (as_array pkg)"
      using chk by (rule packageWithPath_object_values)
    finally show ?thesis .
  qed
qed

theorem version_ignored_subpath_kept_witness:
  "snd (checkPackagesAvailableLocally (with_versions (\<lambda>p. ''beta'') (example_env [] npx_out))
          (Single ''pkg@1.2.3/lib/x.js'')) = [Probed ''pkg/lib/x.js''] \<and>
   snd (checkPackagesAvailableLocally (example_env [] npx_out) (Single ''pkg@beta/lib/x.js''))
     = [Probed ''pkg/lib/x.js''] \<and>
   snd (checkPackagesAvailableLocally (example_env [] npx_out) (Single ''pkg/lib/x.js''))
     = [Probed ''pkg/lib/x.js''] \<and>
   relative_imports (trace_of (npxImport (example_env [] npx_out) Map.empty
                                 (Single ''pkg@1.2.3/lib/x.js'')))
     = [(''/home/u/.npm/_npx/0123abcd/node_modules'', ''pkg/lib/x.js'')]"
proof -
  let ?E = "example_env [] npx_out"
  have 1: "snd (checkPackagesAvailableLocally ?E (Single ''pkg@1.2.3/lib/x.js''))
             = [Probed ''pkg/lib/x.js'']"
    by code_simp
  have 2: "snd (checkPackagesAvailableLocally ?E (Single ''pkg@beta/lib/x.js''))
             = [Probed ''pkg/lib/x.js'']"
    by code_simp
  have 3: "snd (checkPackagesAvailableLocally ?E (Single ''pkg/lib/x.js''))
             = [Probed ''pkg/lib/x.js'']"
    by code_simp
  have 4: "relative_imports (trace_of (npxImport ?E Map.empty (Single ''pkg@1.2.3/lib/x.js'')))
             = [(''/home/u/.npm/_npx/0123abcd/node_modules'', ''pkg/lib/x.js'')]"
    by code_simp
  from version_ignored_subpath_kept [of "\<lambda>p. ''beta''" ?E "Single ''pkg@1.2.3/lib/x.js''"] 1
  have "snd (checkPackagesAvailableLocally (with_versions (\<lambda>p. ''beta'') ?E)
               (Single ''pkg@1.2.3/lib/x.js'')) = [Probed ''pkg/lib/x.js'']"
    by simp
  with 2 3 4 show ?thesis by simp
qed

section \<open>The cache\<close>

lemma import_missing_fails_at:
  assumes "\<forall>p \<in> set pre. \<exists>x. u_importRelative E d (packageWithPath p) = Inr x"
    and "u_importRelative E d (packageWithPath m) = Inl msg"
  shows "fst (import_missing E d (pre @ m # post) allp C) = Inl (External msg) \<and>
         fst (snd (import_missing E d (pre @ m # post) allp C))
           = cache_after d pre C"
  using assms
proof (induction pre arbitrary: allp C)
  case Nil
  then show ?case by simp
next
  case (Cons p pre)
  from Cons.prems obtain x where x: "u_importRelative E d (packageWithPath p) = Inr x"
    by auto
  from Cons.prems have "\<forall>p \<in> set pre. \<exists>x. u_importRelative E d (packageWithPath p) = Inr x"
    by simp
  note IH = Cons.IH [OF this Cons.prems(2),
      of "set_imported (name p) x allp" "C(name p \<mapsto> InstalledAt d)"]
  obtain res C' tr where r: "import_missing E d (pre @ m # post) (set_imported (name p) x allp)
                               (C(name p \<mapsto> InstalledAt d)) = (res, C', tr)"
    by (cases "import_missing E d (pre @ m # post) (set_imported (name p) x allp)
                 (C(name p \<mapsto> InstalledAt d))")
  with IH have "res = Inl (External msg)"
    and "C' = cache_after d pre (C(name p \<mapsto> InstalledAt d))"
    by (simp_all only: fst_conv snd_conv)
  with x r show ?case
    by simp
qed

lemma cache_after_apply:
  "cache_after d ps C n = (if n \<in> name ` set ps then Some (InstalledAt d) else C n)"
  by (induction ps arbitrary: C) auto

lemma distinct_names:
  assumes "checkPackagesAvailableLocally E pkg = (Inr pks, tr0)"
  shows "distinct (map name (object_values pks))"
proof -
  from assms have "checkPackagesAvailableLocally_loop E (as_array pkg) [] = (Inr pks, tr0)"
    by (simp add: checkPackagesAvailableLocally_def)
  from loop_Inr [OF this]
  have pks: "pks = map (\<lambda>p. (name (parsed_of E p), package_of E (parsed_of E p))) (as_array pkg)"
    and d: "distinct (map (\<lambda>p. name (parsed_of E p)) (as_array pkg))"
    by simp_all
  from pks have "map name (map snd pks) = map (\<lambda>p. name (parsed_of E p)) (as_array pkg)"
    by (simp add: package_of_def comp_def)
  with d have "distinct (map name (map snd pks))"
    by simp
  moreover have "mset (map name (object_values pks)) = mset (map name (map snd pks))"
    using mset_object_values [of pks] by (metis mset_map)
  ultimately show ?thesis
    by (metis mset_eq_imp_distinct_iff)
qed

lemma npxResolve_cached_dir:
  assumes "parse E s = Inr r" and "C (name r) = Some (InstalledAt d)" and "d \<noteq> []"
  shows "npxResolve E C s = thrown (u_resolveRelative E (Dir d) (probe_target E s))"
  using assms by (simp add: npxResolve_def cache_get_def probe_target_def Let_def)

text \<open>
  C9. The cache is not written atomically. Let the missing packages be \<open>pre\<close>, then \<open>m\<close>,
  then \<open>post\<close>; the version check and the install succeed, every package of \<open>pre\<close> is imported
  from the install directory \<open>d\<close> and the import of \<open>m\<close> fails. Then \<open>npxImport\<close> throws
  the composite error, and the cache it leaves is the one it started with plus \<open>d\<close> for
  each package of \<open>pre\<close>: no entry has been written for \<open>m\<close>, for \<open>post\<close> or for a local
  package. \<open>npxResolve\<close> for a specifier of a package of \<open>pre\<close> then does not fail with
  ResolveBeforeImport: it is what resolving relative to \<open>d\<close> gives.
\<close>

theorem cache_written_before_failure:
  fixes E :: "'m env"
  assumes "checkPackagesAvailableLocally E pkg = (Inr pks, tr0)"
    and "filter (\<lambda>p. imported p = NOT_IMPORTABLE) (object_values pks) = pre @ m # post"
    and "fst (checkNpxVersion E) = Inr ()"
    and "fst (installAndReturnDir E (pre @ m # post)) = Inr d"
    and "\<forall>p \<in> set pre. \<exists>x. u_importRelative E d (packageWithPath p) = Inr x"
    and "u_importRelative E d (packageWithPath m) = Inl msg"
  shows "result_of (npxImport E C pkg)
           = Inl (OrchestrationFailed (map packageWithPath (pre @ m # post)) msg
                    (map name (pre @ m # post)) (installInstructions E (pre @ m # post))) \<and>
         cache_of (npxImport E C pkg) = cache_after d pre C \<and>
         (\<forall>p \<in> set pre. cache_of (npxImport E C pkg) (name p) = Some (InstalledAt d)) \<and>
         (\<forall>q \<in> set (object_values pks). q \<notin> set pre \<longrightarrow>
            cache_of (npxImport E C pkg) (name q) = C (name q)) \<and>
         (\<forall>p \<in> set pre. \<forall>s r. parse E s = Inr r \<and> name r = name p \<longrightarrow>
            npxResolve E (cache_of (npxImport E C pkg)) s
              = thrown (u_resolveRelative E (Dir d) (probe_target E s)))"
proof -
  let ?all = "object_values pks"
  let ?mis = "pre @ m # post"
  let ?loc = "filter (\<lambda>p. imported p \<noteq> NOT_IMPORTABLE) ?all"
  let ?C' = "cache_after d pre C"
  obtain u tr1 where v: "checkNpxVersion E = (Inr u, tr1)"
    using assms(3) by (cases "checkNpxVersion E") auto
  obtain tr2 where i: "installAndReturnDir E ?mis = (Inr d, tr2)"
    using assms(4) by (cases "installAndReturnDir E ?mis") auto
  obtain r3 C3 tr3 where im: "import_missing E d ?mis ?all C = (r3, C3, tr3)"
    by (cases "import_missing E d ?mis ?all C")
  with import_missing_fails_at [OF assms(5,6), of post ?all C]
  have r3: "r3 = Inl (External msg)" and C3: "C3 = ?C'"
    by (simp_all only: fst_conv snd_conv)
  from v i im r3 C3
  have t: "npxImport_try E C ?all ?mis ?loc = (Inl (External msg), ?C', tr1 @ tr2 @ tr3)"
    by (simp add: npxImport_try_def)
  with assms(1,2) have run: "npxImport E C pkg
      = (Inl (OrchestrationFailed (map packageWithPath ?mis) msg (map name ?mis)
                (installInstructions E ?mis)),
         ?C', tr0 @ [Logged (missing_line ?mis)] @ tr1 @ tr2 @ tr3)"
    by (simp add: npxImport_def Let_def)
  then have res: "result_of (npxImport E C pkg)
      = Inl (OrchestrationFailed (map packageWithPath ?mis) msg (map name ?mis)
               (installInstructions E ?mis))"
    and cache: "cache_of (npxImport E C pkg) = ?C'"
    by (simp_all add: result_of_def cache_of_def)
  have written: "\<forall>p \<in> set pre. ?C' (name p) = Some (InstalledAt d)"
    by (simp add: cache_after_apply)
  have dn: "distinct (map name ?all)"
    using assms(1) by (rule distinct_names)
  have sub: "set pre \<subseteq> set ?all"
  proof -
    have "set pre \<subseteq> set (filter (\<lambda>p. imported p = NOT_IMPORTABLE) ?all)"
      unfolding assms(2) by auto
    then show ?thesis by auto
  qed
  have other: "\<forall>q \<in> set ?all. q \<notin> set pre \<longrightarrow> ?C' (name q) = C (name q)"
  proof (intro ballI impI)
    fix q
    assume q: "q \<in> set ?all" "q \<notin> set pre"
    have "name q \<notin> name ` set pre"
    proof
      assume "name q \<in> name ` set pre"
      then obtain p where p: "p \<in> set pre" "name p = name q"
        by auto
      with sub have "p \<in> set ?all" by auto
      with dn q p have "p = q"
        by (metis distinct_map inj_onD)
      with p q show False by simp
    qed
    then show "?C' (name q) = C (name q)"
      by (simp add: cache_after_apply)
  qed
  from installAndReturnDir_Inr [OF assms(4)] have "suffix ''node_modules'' d"
    by blast
  then have "d \<noteq> []"
    by (auto simp: suffix_def)
  with written have resolve: "\<forall>p \<in> set pre. \<forall>s r. parse E s = Inr r \<and> name r = name p \<longrightarrow>
      npxResolve E ?C' s = thrown (u_resolveRelative E (Dir d) (probe_target E s))"
    by (auto intro!: npxResolve_cached_dir)
  from res cache written other resolve show ?thesis
    by simp
qed

theorem cache_written_before_failure_witness:
  "cache_of (npxImport (failing_import_env [''pkg-l''] npx_out ''pkg-b'') Map.empty
               (Array [''pkg-l'', ''pkg-a'', ''pkg-b''])) ''pkg-a''
     = Some (InstalledAt ''/home/u/.npm/_npx/0123abcd/node_modules'') \<and>
   cache_of (npxImport (failing_import_env [''pkg-l''] npx_out ''pkg-b'') Map.empty
               (Array [''pkg-l'', ''pkg-a'', ''pkg-b''])) ''pkg-l'' = None \<and>
   npxResolve (failing_import_env [''pkg-l''] npx_out ''pkg-b'')
     (cache_of (npxImport (failing_import_env [''pkg-l''] npx_out ''pkg-b'') Map.empty
                  (Array [''pkg-l'', ''pkg-a'', ''pkg-b''])))
     ''pkg-a''
     = Inr ''/home/u/.npm/_npx/0123abcd/node_modules/pkg-a''"
proof -
  let ?E = "failing_import_env [''pkg-l''] npx_out ''pkg-b''"
  let ?pkg = "Array [''pkg-l'', ''pkg-a'', ''pkg-b'']"
  let ?d = "''/home/u/.npm/_npx/0123abcd/node_modules''"
  let ?pl = "package_of ?E \<lparr>name = ''pkg-l'', version = ''latest'', path = []\<rparr>"
  let ?pa = "package_of ?E \<lparr>name = ''pkg-a'', version = ''latest'', path = []\<rparr>"
  let ?pb = "package_of ?E \<lparr>name = ''pkg-b'', version = ''latest'', path = []\<rparr>"
  let ?pks = "[(''pkg-l'', ?pl), (''pkg-a'', ?pa), (''pkg-b'', ?pb)]"
  let ?run = "npxImport ?E Map.empty ?pkg"
  have c: "checkPackagesAvailableLocally ?E ?pkg
             = (Inr ?pks, snd (checkPackagesAvailableLocally ?E ?pkg))"
    by (simp add: prod_eq_iff, code_simp)
  have m: "filter (\<lambda>p. imported p = NOT_IMPORTABLE) (object_values ?pks) = [?pa] @ ?pb # []"
    by code_simp
  have v: "fst (checkNpxVersion ?E) = Inr ()"
    by code_simp
  have i: "fst (installAndReturnDir ?E ([?pa] @ ?pb # [])) = Inr ?d"
    by code_simp
  have ok: "\<forall>p \<in> set [?pa]. \<exists>x. u_importRelative ?E ?d (packageWithPath p) = Inr x"
  proof -
    have "u_importRelative ?E ?d (packageWithPath ?pa) = Inr (?d @ ''/pkg-a'')"
      by code_simp
    then show ?thesis by simp
  qed
  have bad: "u_importRelative ?E ?d (packageWithPath ?pb)
               = Inl (''Cannot find module '' @ ?d @ ''/pkg-b'')"
    by code_simp
  note T = cache_written_before_failure [OF c m v i ok bad, of Map.empty]
  have na: "name ?pa = ''pkg-a''" and nl: "name ?pl = ''pkg-l''"
    by (simp_all add: package_of_def)
  from T have "cache_of ?run (name ?pa) = Some (InstalledAt ?d)"
    by simp
  then have 1: "cache_of ?run ''pkg-a'' = Some (InstalledAt ?d)"
    by (simp only: na)
  have "?pl \<in> set (object_values ?pks)" and "?pl \<notin> set [?pa]"
    by code_simp+
  with T have "cache_of ?run (name ?pl) = Map.empty (name ?pl)"
    by blast
  then have 2: "cache_of ?run ''pkg-l'' = None"
    by (simp only: nl)
  have p: "parse ?E ''pkg-a'' = Inr \<lparr>name = ''pkg-a'', version = ''latest'', path = []\<rparr>"
    by code_simp
  have "npxResolve ?E (cache_of ?run) ''pkg-a''
          = thrown (u_resolveRelative ?E (Dir ?d) (probe_target ?E ''pkg-a''))"
    using T p na by force
  also have "\<dots> = Inr ''/home/u/.npm/_npx/0123abcd/node_modules/pkg-a''"
    by code_simp
  finally have 3: "npxResolve ?E (cache_of ?run) ''pkg-a''
                     = Inr ''/home/u/.npm/_npx/0123abcd/node_modules/pkg-a''" .
  from 1 2 3 show ?thesis by blast
qed

section \<open>Two places where the dictionary is an object\<close>

lemma import_missing_cache_elsewhere:
  "n \<notin> name ` set ms \<Longrightarrow> fst (snd (import_missing E d ms allp C)) n = C n"
proof (induction ms arbitrary: allp C)
  case Nil
  then show ?case by simp
next
  case (Cons m ms)
  show ?case
  proof (cases "u_importRelative E d (packageWithPath m)")
    case (Inl e)
    then show ?thesis by simp
  next
    case (Inr x)
    obtain res C' tr where r: "import_missing E d ms (set_imported (name m) x allp)
                                 (C(name m \<mapsto> InstalledAt d)) = (res, C', tr)"
      by (cases "import_missing E d ms (set_imported (name m) x allp)
                   (C(name m \<mapsto> InstalledAt d))")
    from Cons.prems have "n \<notin> name ` set ms" and ne: "n \<noteq> name m"
      by auto
    then have "fst (snd (import_missing E d ms (set_imported (name m) x allp)
                           (C(name m \<mapsto> InstalledAt d)))) n
                 = (C(name m \<mapsto> InstalledAt d)) n"
      by (intro Cons.IH)
    with r ne have "C' n = C n"
      by simp
    with Inr r show ?thesis
      by simp
  qed
qed

lemma cache_local_elsewhere:
  "n \<notin> name ` set ls \<Longrightarrow> cache_local ls C n = C n"
  unfolding cache_local_def
  by (induction ls arbitrary: C rule: rev_induct) simp_all

lemma npxImport_try_cache_elsewhere:
  assumes "n \<notin> name ` set ms" and "n \<notin> name ` set ls"
  shows "fst (snd (npxImport_try E C allp ms ls)) n = C n"
proof (cases "checkNpxVersion E")
  case (Pair r1 tr1)
  show ?thesis
  proof (cases r1)
    case (Inl e)
    with Pair show ?thesis by (simp add: npxImport_try_def)
  next
    case (Inr u)
    obtain r2 tr2 where i: "installAndReturnDir E ms = (r2, tr2)"
      by (cases "installAndReturnDir E ms")
    show ?thesis
    proof (cases r2)
      case (Inl e)
      with Pair Inr i show ?thesis by (simp add: npxImport_try_def)
    next
      case d: (Inr d)
      obtain r3 C3 tr3 where m: "import_missing E d ms allp C = (r3, C3, tr3)"
        by (cases "import_missing E d ms allp C")
      with import_missing_cache_elsewhere [OF assms(1), of E d allp C] have "C3 n = C n"
        by simp
      with Pair Inr i d m assms(2) show ?thesis
        by (cases r3) (simp_all add: npxImport_try_def cache_local_elsewhere)
    qed
  qed
qed

lemma names_object_values:
  assumes "checkPackagesAvailableLocally E pkg = (Inr pks, tr0)"
  shows "name ` set (object_values pks) = (\<lambda>p. name (parsed_of E p)) ` set (as_array pkg)"
proof -
  from assms have "checkPackagesAvailableLocally_loop E (as_array pkg) [] = (Inr pks, tr0)"
    by (simp add: checkPackagesAvailableLocally_def)
  from loop_Inr [OF this]
  have "pks = map (\<lambda>p. (name (parsed_of E p), package_of E (parsed_of E p))) (as_array pkg)"
    by simp
  then have "snd ` set pks = (\<lambda>p. package_of E (parsed_of E p)) ` set (as_array pkg)"
    by (simp add: image_image)
  then have "name ` set (object_values pks)
               = (\<lambda>p. name (package_of E (parsed_of E p))) ` set (as_array pkg)"
    by (simp add: set_object_values image_image)
  then show ?thesis
    by (simp add: package_of_def)
qed

lemma npxImport_cache_elsewhere:
  assumes "n \<notin> (\<lambda>p. name (parsed_of E p)) ` set (as_array pkg)"
  shows "cache_of (npxImport E C pkg) n = C n"
proof (cases "checkPackagesAvailableLocally E pkg")
  case (Pair r0 tr0)
  show ?thesis
  proof (cases r0)
    case (Inl e)
    with Pair show ?thesis
      by (simp add: npxImport_def cache_of_def)
  next
    case (Inr pks)
    let ?all = "object_values pks"
    let ?mis = "filter (\<lambda>p. imported p = NOT_IMPORTABLE) ?all"
    let ?loc = "filter (\<lambda>p. imported p \<noteq> NOT_IMPORTABLE) ?all"
    from Pair Inr assms have "n \<notin> name ` set ?all"
      using names_object_values by blast
    then have "n \<notin> name ` set ?mis" and "n \<notin> name ` set ?loc"
      by auto
    then have t: "fst (snd (npxImport_try E C ?all ?mis ?loc)) n = C n"
      by (rule npxImport_try_cache_elsewhere)
    obtain r1 C1 tr1 where r: "npxImport_try E C ?all ?mis ?loc = (r1, C1, tr1)"
      by (cases "npxImport_try E C ?all ?mis ?loc")
    with t have "C1 n = C n"
      by simp
    with Pair Inr r show ?thesis
      by (cases r1) (simp_all add: npxImport_def cache_of_def Let_def)
  qed
qed

lemma npxImport_all_local_keeps_cache:
  assumes "checkPackagesAvailableLocally E pkg = (Inr pks, tr0)"
    and "\<forall>p \<in> set (object_values pks). imported p \<noteq> NOT_IMPORTABLE"
  shows "cache_of (npxImport E C pkg) = C"
proof -
  from assms(2) have "filter (\<lambda>p. imported p = NOT_IMPORTABLE) (object_values pks) = []"
    by (simp add: filter_empty_conv)
  with assms(1) show ?thesis
    by (simp add: npxImport_def cache_of_def Let_def)
qed

lemma npxResolve_unknown_name:
  assumes "parse E s = Inr r" and "C (name r) = None"
    and "name r \<notin> set object_prototype_members"
  shows "npxResolve E C s = Inl (ResolveBeforeImport s)"
  using assms by (simp add: npxResolve_def cache_get_def Let_def)

lemma import_missing_each:
  assumes "import_missing E d ms allp C = (Inr allp', C', tr)"
  shows "length allp' = length allp \<and>
         (\<forall>i < length allp.
            (name (allp ! i) \<notin> name ` set ms \<and> allp' ! i = allp ! i) \<or>
            (\<exists>m \<in> set ms. \<exists>x. name m = name (allp ! i) \<and>
               u_importRelative E d (packageWithPath m) = Inr x \<and>
               allp' ! i = (allp ! i)\<lparr>imported := Module x\<rparr>))"
  using assms
proof (induction ms arbitrary: allp C tr)
  case Nil
  then show ?case by auto
next
  case (Cons m ms)
  from Cons.prems obtain x where x: "u_importRelative E d (packageWithPath m) = Inr x"
    by (auto split: sum.splits)
  let ?allp1 = "set_imported (name m) x allp"
  from Cons.prems x obtain tr' where
    rec: "import_missing E d ms ?allp1 (C(name m \<mapsto> InstalledAt d)) = (Inr allp', C', tr')"
    by (auto simp: Let_def split: prod.splits)
  note IH = Cons.IH [OF rec]
  have len: "length ?allp1 = length allp"
    by (simp add: set_imported_def)
  with IH have l: "length allp' = length allp"
    by simp
  have each: "(name (allp ! i) \<notin> name ` set (m # ms) \<and> allp' ! i = allp ! i) \<or>
            (\<exists>m' \<in> set (m # ms). \<exists>x. name m' = name (allp ! i) \<and>
               u_importRelative E d (packageWithPath m') = Inr x \<and>
               allp' ! i = (allp ! i)\<lparr>imported := Module x\<rparr>)"
    if i: "i < length allp" for i
  proof -
    from i have a1: "?allp1 ! i = (if name (allp ! i) = name m
                                   then (allp ! i)\<lparr>imported := Module x\<rparr> else allp ! i)"
      by (simp add: set_imported_def)
    then have n1: "name (?allp1 ! i) = name (allp ! i)"
      by simp
    from IH i len have
      "(name (?allp1 ! i) \<notin> name ` set ms \<and> allp' ! i = ?allp1 ! i) \<or>
       (\<exists>m' \<in> set ms. \<exists>x'. name m' = name (?allp1 ! i) \<and>
          u_importRelative E d (packageWithPath m') = Inr x' \<and>
          allp' ! i = (?allp1 ! i)\<lparr>imported := Module x'\<rparr>)"
      by simp
    then show ?thesis
    proof
      assume u: "name (?allp1 ! i) \<notin> name ` set ms \<and> allp' ! i = ?allp1 ! i"
      show ?thesis
      proof (cases "name (allp ! i) = name m")
        case True
        with u a1 x show ?thesis
          by (intro disjI2 bexI [of _ m] exI [of _ x]) simp_all
      next
        case False
        with u a1 n1 show ?thesis
          by (intro disjI1) auto
      qed
    next
      assume "\<exists>m' \<in> set ms. \<exists>x'. name m' = name (?allp1 ! i) \<and>
          u_importRelative E d (packageWithPath m') = Inr x' \<and>
          allp' ! i = (?allp1 ! i)\<lparr>imported := Module x'\<rparr>"
      then obtain m' x' where m': "m' \<in> set ms" "name m' = name (allp ! i)"
        "u_importRelative E d (packageWithPath m') = Inr x'"
        "allp' ! i = (?allp1 ! i)\<lparr>imported := Module x'\<rparr>"
        using n1 by auto
      from m'(4) a1 have "allp' ! i = (allp ! i)\<lparr>imported := Module x'\<rparr>"
        by simp
      with m' show ?thesis
        by (intro disjI2 bexI [of _ m'] exI [of _ x']) simp_all
    qed
  qed
  from l each show ?case
    by blast
qed

lemma npxImport_in_input_order:
  fixes E :: "'m env"
  assumes "result_of (npxImport E C (Array ps)) = Inr res"
    and "\<forall>p \<in> set ps. \<not> is_array_index (name (parsed_of E p))"
  shows "\<exists>ms. res = Many ms \<and> length ms = length ps \<and>
           (\<forall>i < length ps.
              ms ! i = tryImport E (probe_target E (ps ! i)) \<or>
              (tryImport E (probe_target E (ps ! i)) = NOT_IMPORTABLE \<and>
               (\<exists>d x. u_importRelative E d (probe_target E (ps ! i)) = Inr x \<and>
                      ms ! i = Module x)))"
proof -
  obtain r0 tr0 where chk: "checkPackagesAvailableLocally E (Array ps) = (r0, tr0)"
    by (cases "checkPackagesAvailableLocally E (Array ps)")
  with assms(1) obtain pks where r0: "r0 = Inr pks"
    by (cases r0) (auto simp: npxImport_def result_of_def)
  let ?all = "object_values pks"
  let ?mis = "filter (\<lambda>p. imported p = NOT_IMPORTABLE) ?all"
  let ?loc = "filter (\<lambda>p. imported p \<noteq> NOT_IMPORTABLE) ?all"
  from chk r0 have "checkPackagesAvailableLocally_loop E ps [] = (Inr pks, tr0)"
    by (simp add: checkPackagesAvailableLocally_def as_array_def)
  from loop_Inr [OF this]
  have pks: "pks = map (\<lambda>p. (name (parsed_of E p), package_of E (parsed_of E p))) ps"
    by simp
  with assms(2) have "\<forall>kv \<in> set pks. \<not> is_array_index (fst kv)"
    by auto
  then have "?all = map snd pks"
    by (rule object_values_no_index)
  with pks have all: "?all = map (\<lambda>p. package_of E (parsed_of E p)) ps"
    by (simp add: comp_def)
  then have len: "length ?all = length ps"
    by simp
  have at: "imported (?all ! i) = tryImport E (probe_target E (ps ! i)) \<and>
            packageWithPath (?all ! i) = probe_target E (ps ! i)" if "i < length ps" for i
    using that all by (simp add: package_of_def probe_target_parsed_of)
  show ?thesis
  proof (cases "?mis = []")
    case True
    with assms(1) chk r0 have "res = Many (map imported ?all)"
      by (simp add: npxImport_def result_of_def Let_def returned_def)
    with len at show ?thesis
      by (intro exI [of _ "map imported ?all"]) simp
  next
    case False
    obtain r1 C1 tr1 where t: "npxImport_try E C ?all ?mis ?loc = (r1, C1, tr1)"
      by (cases "npxImport_try E C ?all ?mis ?loc")
    with False assms(1) chk r0 obtain allp' where r1: "r1 = Inr allp'"
      and res: "res = Many (map imported allp')"
      by (cases r1) (auto simp: npxImport_def result_of_def Let_def returned_def)
    from npxImport_try_Inr t r1 obtain d C2 tr3 where
      "import_missing E d ?mis ?all C = (Inr allp', C2, tr3)"
      by blast
    note each = import_missing_each [OF this]
    have dn: "distinct (map name ?all)"
      using chk r0 distinct_names by blast
    have "map imported allp' ! i = tryImport E (probe_target E (ps ! i)) \<or>
          (tryImport E (probe_target E (ps ! i)) = NOT_IMPORTABLE \<and>
           (\<exists>d x. u_importRelative E d (probe_target E (ps ! i)) = Inr x \<and>
                  map imported allp' ! i = Module x))" if i: "i < length ps" for i
    proof -
      from i len each have l: "i < length allp'" and
        c: "(name (?all ! i) \<notin> name ` set ?mis \<and> allp' ! i = ?all ! i) \<or>
            (\<exists>m \<in> set ?mis. \<exists>x. name m = name (?all ! i) \<and>
               u_importRelative E d (packageWithPath m) = Inr x \<and>
               allp' ! i = (?all ! i)\<lparr>imported := Module x\<rparr>)"
        by simp_all
      from c show ?thesis
      proof
        assume "name (?all ! i) \<notin> name ` set ?mis \<and> allp' ! i = ?all ! i"
        with l at [OF i] show ?thesis
          by simp
      next
        assume "\<exists>m \<in> set ?mis. \<exists>x. name m = name (?all ! i) \<and>
               u_importRelative E d (packageWithPath m) = Inr x \<and>
               allp' ! i = (?all ! i)\<lparr>imported := Module x\<rparr>"
        then obtain m x where m: "m \<in> set ?mis" "name m = name (?all ! i)"
          "u_importRelative E d (packageWithPath m) = Inr x"
          "allp' ! i = (?all ! i)\<lparr>imported := Module x\<rparr>"
          by blast
        from m(1) have "m \<in> set ?all" and nm: "imported m = NOT_IMPORTABLE"
          by simp_all
        moreover from i len have "?all ! i \<in> set ?all"
          by simp
        ultimately have "m = ?all ! i"
          using dn m(2) by (metis distinct_map inj_onD)
        with m nm l at [OF i] show ?thesis
          by (intro disjI2) auto
      qed
    qed
    moreover from each len have "length (map imported allp') = length ps"
      by simp
    ultimately show ?thesis
      using res by blast
  qed
qed

text \<open>
  C1, evaluated where it fails. In a process that has imported nothing, the cache is the
  empty object, and \<open>INSTALL_CACHE['constructor']\<close> is the function inherited from
  \<open>Object.prototype\<close>: \<open>npxResolve('constructor')\<close> passes the \<open>!cachedDir\<close> test and
  resolves relative to that function instead of throwing ResolveBeforeImport.
\<close>

theorem npxResolve_inherited_member:
  "cache_get Map.empty ''constructor'' = Inherited ''constructor'' \<and>
   npxResolve (example_env [] npx_out) Map.empty ''constructor''
     = thrown (u_resolveRelative (example_env [] npx_out) (PrototypeMember ''constructor'')
                 ''constructor'') \<and>
   npxResolve (example_env [] npx_out) Map.empty ''constructor''
     \<noteq> Inl (ResolveBeforeImport ''constructor'')"
  by code_simp

text \<open>
  C4, evaluated where it fails. \<open>Object.values(packages)\<close> lists the package whose name
  is an array index first: for \<open>['pkg-a', '1']\<close>, both installed locally, the modules come
  back as \<open>['1', 'pkg-a']\<close>.
\<close>

theorem npxImport_array_index_first:
  "result_of (npxImport (example_env [''pkg-a'', ''1''] npx_out) Map.empty
                (Array [''pkg-a'', ''1'']))
     = Inr (Many [Module ''local:1'', Module ''local:pkg-a''])"
  by code_simp

end
